theory Spec2Isabelle
  imports Complex_Main "HOL-Library.Word"
begin

section \<open>JavaScript strings, numbers in messages, errors\<close>

text \<open>
  A JavaScript string is a sequence of UTF-16 code units; \<open>length\<close>, \<open>substring\<close> and
  \<open>slice\<close> count code units. String literals of the source are ASCII and are written
  through \<open>js\<close>.
\<close>

type_synonym jschar = "16 word"
type_synonym jsstring = "jschar list"

definition js :: "string \<Rightarrow> jsstring" where
  "js s = map (\<lambda>c. of_char c) s"

text \<open>
  Template literals print a number argument in decimal. The numbers printed by this
  module (\<open>maxRequests\<close>, \<open>min\<close>, \<open>max\<close>) are integers; \<open>show_int\<close> is their plain decimal
  form (an integer of magnitude \<open>10^21\<close> or more would print with an exponent).
\<close>

fun digits :: "nat \<Rightarrow> jsstring" where
  "digits n = (if n < 10 then [of_nat (48 + n)] else digits (n div 10) @ [of_nat (48 + n mod 10)])"

declare digits.simps [simp del]

definition show_int :: "int \<Rightarrow> jsstring" where
  "show_int i = (if i < 0 then js ''-'' @ digits (nat (- i)) else digits (nat i))"

text \<open>
  Every failure the source raises is \<open>throw new Error(message)\<close>; \<open>TypeError\<close> is what the
  engine raises on a property read of \<open>null\<close> or \<open>undefined\<close>. The specification's error
  classes name these messages: RateLimitError is the message built by
  \<open>rate_limit_message\<close>, DuplicateSubmissionError is \<open>duplicate_message\<close>, ForbiddenError
  is a message that starts with \<open>Forbidden:\<close>, NotFoundError is \<open>not_found_message\<close>.
\<close>

datatype error = Error jsstring | TypeError jsstring

section \<open>Abuse guard (validators.js)\<close>

text \<open>
  \<open>rateLimitStore\<close> and \<open>recentContentHashes\<close> are module-level \<open>Map\<close>s. They are passed
  in and returned; \<open>Date.now()\<close> is the argument \<open>now\<close> (milliseconds).
\<close>

type_synonym rate_store = "jsstring \<rightharpoonup> int list"
type_synonym hash_store = "jsstring \<rightharpoonup> int"

definition rate_limit_message :: "int \<Rightarrow> jsstring \<Rightarrow> jsstring" where
  "rate_limit_message maxRequests action =
     js ''Rate limit exceeded. Maximum '' @ show_int maxRequests
       @ js '' requests per minute for '' @ action"

definition checkRateLimit ::
  "rate_store \<Rightarrow> int \<Rightarrow> jsstring \<Rightarrow> jsstring \<Rightarrow> int \<Rightarrow> int \<Rightarrow> (error + bool) \<times> rate_store" where
  "checkRateLimit rateLimitStore now userId action maxRequests windowMs =
     (let key = userId @ js '':'' @ action in
      case rateLimitStore key of
        None \<Rightarrow> (Inr True, rateLimitStore(key \<mapsto> [now]))
      | Some stored \<Rightarrow>
          (let timestamps = filter (\<lambda>t. now - t < windowMs) stored in
           if maxRequests \<le> int (length timestamps)
           then (Inl (Error (rate_limit_message maxRequests action)), rateLimitStore)
           else (Inr True, rateLimitStore(key \<mapsto> timestamps @ [now]))))"

definition duplicate_message :: jsstring where
  "duplicate_message =
     js ''Duplicate submission detected. Please wait before submitting identical content.''"

text \<open>
  The clean-up loop visits every entry of the map and deletes the keys whose timestamp
  is more than \<open>windowMs * 2\<close> before \<open>now\<close>. \<open>content_hash\<close> is the template literal that
  builds the key; \<open>is_recent\<close> is the test of the two nested \<open>if\<close>s: the map has the key,
  and \<open>now - lastSubmission < windowMs\<close>.
\<close>

definition cleanup :: "int \<Rightarrow> int \<Rightarrow> hash_store \<Rightarrow> hash_store" where
  "cleanup now windowMs m =
     (\<lambda>key. case m key of
        None \<Rightarrow> None
      | Some timestamp \<Rightarrow> if now - timestamp > windowMs * 2 then None else Some timestamp)"

definition content_hash :: "jsstring \<Rightarrow> jsstring \<Rightarrow> jsstring" where
  "content_hash userId content = userId @ js '':'' @ take 100 content"

definition is_recent :: "hash_store \<Rightarrow> jsstring \<Rightarrow> int \<Rightarrow> int \<Rightarrow> bool" where
  "is_recent m hash now windowMs =
     (case m hash of None \<Rightarrow> False | Some lastSubmission \<Rightarrow> now - lastSubmission < windowMs)"

definition checkDuplicateContent ::
  "hash_store \<Rightarrow> int \<Rightarrow> jsstring \<Rightarrow> jsstring \<Rightarrow> jsstring \<Rightarrow> int \<Rightarrow> (error + bool) \<times> hash_store" where
  "checkDuplicateContent recentContentHashes now userId content action windowMs =
     (let hash = content_hash userId content in
      if is_recent recentContentHashes hash now windowMs
      then (Inl (Error duplicate_message), recentContentHashes)
      else (Inr True, cleanup now windowMs (recentContentHashes(hash \<mapsto> now))))"

text \<open>
  A run of calls to \<open>checkRateLimit\<close> by one user for one action under one policy, at
  the given times; \<open>one_window\<close> says that every call of the run is less than \<open>windowMs\<close>
  after every earlier call of the run.
\<close>

fun rate_calls ::
  "rate_store \<Rightarrow> jsstring \<Rightarrow> jsstring \<Rightarrow> int \<Rightarrow> int \<Rightarrow> int list \<Rightarrow> (error + bool) list \<times> rate_store" where
  "rate_calls s userId action maxRequests windowMs [] = ([], s)"
| "rate_calls s userId action maxRequests windowMs (now # ts) =
     (case checkRateLimit s now userId action maxRequests windowMs of
        (r, s') \<Rightarrow> (case rate_calls s' userId action maxRequests windowMs ts of
                      (rs, s'') \<Rightarrow> (r # rs, s'')))"

fun one_window :: "int \<Rightarrow> int list \<Rightarrow> bool" where
  "one_window windowMs [] = True"
| "one_window windowMs (t # ts) = ((\<forall>t'\<in>set ts. t' - t < windowMs) \<and> one_window windowMs ts)"

text \<open>
  A run of attempts by one user with one content: each attempt has its own time, action
  and window. The store is threaded through, as the module-level map is.
\<close>

fun attempts ::
  "hash_store \<Rightarrow> jsstring \<Rightarrow> jsstring \<Rightarrow> (int \<times> jsstring \<times> int) list \<Rightarrow> (error + bool) list \<times> hash_store" where
  "attempts m userId content [] = ([], m)"
| "attempts m userId content ((now, action, windowMs) # rest) =
     (case checkDuplicateContent m now userId content action windowMs of
        (r, m') \<Rightarrow> (case attempts m' userId content rest of (rs, m'') \<Rightarrow> (r # rs, m'')))"

section \<open>JavaScript values and plain objects\<close>

text \<open>
  Values found in token claims, stored documents and payloads. A number is a rational,
  an infinity or \<open>NaN\<close> (the two zeros are one value: both are falsy and compare equal).
  \<open>Inherited k\<close> is the function or object that a property read finds under the name \<open>k\<close>
  on \<open>Object.prototype\<close>; \<open>ServerTimestamp\<close> is the sentinel of
  \<open>FieldValue.serverTimestamp()\<close>.
\<close>

datatype jsnum = NaN | Fin rat | PosInf | NegInf

datatype jsval =
    Undefined
  | Null
  | JBool bool
  | JNumber jsnum
  | JString jsstring
  | JObject "(jsstring \<times> jsval) list"
  | Inherited jsstring
  | ServerTimestamp

type_synonym document = "(jsstring \<times> jsval) list"

fun truthy :: "jsval \<Rightarrow> bool" where
  "truthy Undefined = False"
| "truthy Null = False"
| "truthy (JBool b) = b"
| "truthy (JNumber n) = (n \<noteq> NaN \<and> n \<noteq> Fin 0)"
| "truthy (JString s) = (s \<noteq> [])"
| "truthy (JObject fs) = True"
| "truthy (Inherited k) = True"
| "truthy ServerTimestamp = True"

text \<open>
  An object literal and the data of a document are plain objects: a read of a property
  they do not own goes on to \<open>Object.prototype\<close>, whose properties are the names below
  (Node.js); any other name reads \<open>undefined\<close>.
\<close>

definition object_prototype_names :: "jsstring list" where
  "object_prototype_names =
     map js [''constructor'', ''__defineGetter__'', ''__defineSetter__'', ''hasOwnProperty'',
       ''__lookupGetter__'', ''__lookupSetter__'', ''isPrototypeOf'', ''propertyIsEnumerable'',
       ''toString'', ''valueOf'', ''__proto__'', ''toLocaleString'']"

definition get_prop :: "document \<Rightarrow> jsstring \<Rightarrow> jsval" where
  "get_prop fs k =
     (case map_of fs k of
        Some v \<Rightarrow> v
      | None \<Rightarrow> if k \<in> set object_prototype_names then Inherited k else Undefined)"

text \<open>
  The relational operator \<open><\<close> turns an inherited function or object into a string
  first: the source text of a native function as V8 prints it, \<open>[object Object]\<close> for
  \<open>Object.prototype\<close> itself (the value of \<open>__proto__\<close>). Two strings compare by code
  units; a string that is not a numeral against a number compares as \<open>NaN\<close>: false.
\<close>

definition inherited_primitive :: "jsstring \<Rightarrow> jsstring" where
  "inherited_primitive k =
     (if k = js ''__proto__'' then js ''[object Object]''
      else js ''function '' @ (if k = js ''constructor'' then js ''Object'' else k)
             @ js ''() { [native code] }'')"

fun string_less :: "jsstring \<Rightarrow> jsstring \<Rightarrow> bool" where
  "string_less [] [] = False"
| "string_less [] (y # ys) = True"
| "string_less (x # xs) [] = False"
| "string_less (x # xs) (y # ys) = (x < y \<or> (x = y \<and> string_less xs ys))"

section \<open>Regular expressions and string built-ins\<close>

text \<open>
  The two regular-expression literals of \<open>sanitizeString\<close> are kept as data and run by
  a backtracking matcher that follows the ECMAScript pattern semantics for the
  constructs they use. \<open>matches ic s r ys\<close> runs \<open>r\<close> on the input \<open>s\<close> at the position
  where \<open>ys\<close> is what remains of \<open>s\<close>, and returns what remains after each way the
  pattern can match, in the order backtracking tries them. A star is greedy, and an
  iteration of it that consumes nothing is not continued. The word boundary looks at
  the code unit before the position, which it finds in \<open>s\<close>.
\<close>

datatype regex =
    Chr jschar
  | NotChr jschar
  | Class "(jschar \<times> jschar) list"
  | WordBoundary
  | Eps
  | Seq regex regex
  | Star regex
  | NotAhead regex

text \<open>
  Canonicalization under the \<open>i\<close> flag (no \<open>u\<close> flag) maps a code unit to its upper
  case; a code unit of 128 or more is never mapped to one below 128. The characters of
  the patterns are ASCII, so for comparing with them the ASCII letters are all that
  changes.
\<close>

definition canon :: "bool \<Rightarrow> jschar \<Rightarrow> jschar" where
  "canon ic c = (if ic \<and> 0x61 \<le> c \<and> c \<le> 0x7A then c - 0x20 else c)"

definition is_word :: "jschar \<Rightarrow> bool" where
  "is_word c \<longleftrightarrow>
     (0x41 \<le> c \<and> c \<le> 0x5A) \<or> (0x61 \<le> c \<and> c \<le> 0x7A) \<or> (0x30 \<le> c \<and> c \<le> 0x39) \<or> c = 0x5F"

definition in_class :: "(jschar \<times> jschar) list \<Rightarrow> jschar \<Rightarrow> bool" where
  "in_class ranges c = list_ex (\<lambda>r. fst r \<le> c \<and> c \<le> snd r) ranges"

function matches :: "bool \<Rightarrow> jsstring \<Rightarrow> regex \<Rightarrow> jsstring \<Rightarrow> jsstring list" where
  "matches ic s (Chr c) ys =
     (case ys of [] \<Rightarrow> [] | y # ys' \<Rightarrow> if canon ic y = canon ic c then [ys'] else [])"
| "matches ic s (NotChr c) ys =
     (case ys of [] \<Rightarrow> [] | y # ys' \<Rightarrow> if canon ic y \<noteq> canon ic c then [ys'] else [])"
| "matches ic s (Class ranges) ys =
     (case ys of [] \<Rightarrow> [] | y # ys' \<Rightarrow> if in_class ranges y then [ys'] else [])"
| "matches ic s WordBoundary ys =
     (let a = (length ys < length s \<and> is_word (s ! (length s - length ys - 1)));
          b = (case ys of [] \<Rightarrow> False | y # ys' \<Rightarrow> is_word y)
      in if a \<noteq> b then [ys] else [])"
| "matches ic s Eps ys = [ys]"
| "matches ic s (Seq r1 r2) ys = concat (map (\<lambda>zs. matches ic s r2 zs) (matches ic s r1 ys))"
| "matches ic s (Star r) ys =
     concat (map (\<lambda>zs. matches ic s (Star r) zs)
               (filter (\<lambda>zs. length zs < length ys) (matches ic s r ys)))
       @ [ys]"
| "matches ic s (NotAhead r) ys = (if matches ic s r ys = [] then [ys] else [])"
  by pat_completeness auto
termination
  by (relation "measures [\<lambda>(ic, s, r, ys). size r, \<lambda>(ic, s, r, ys). length ys]") auto

declare matches.simps [simp del]

text \<open>
  \<open>str.replace(r, "")\<close> with the \<open>g\<close> flag: the leftmost match at or after the current
  position is removed and the search goes on behind it; a code unit where nothing
  matches (or only the empty string) is kept.
\<close>

function replace_all :: "bool \<Rightarrow> regex \<Rightarrow> jsstring \<Rightarrow> jsstring \<Rightarrow> jsstring" where
  "replace_all ic r s [] = []"
| "replace_all ic r s (y # ys) =
     (case matches ic s r (y # ys) of
        [] \<Rightarrow> y # replace_all ic r s ys
      | zs # _ \<Rightarrow>
          if length zs < length (y # ys) then replace_all ic r s zs
          else y # replace_all ic r s ys)"
  by pat_completeness auto
termination
  by (relation "measure (\<lambda>(ic, r, s, ys). length ys)") auto

definition replace_global :: "bool \<Rightarrow> regex \<Rightarrow> jsstring \<Rightarrow> jsstring" where
  "replace_global ic r s = replace_all ic r s s"

fun lit :: "jsstring \<Rightarrow> regex" where
  "lit [] = Eps"
| "lit (c # cs) = Seq (Chr c) (lit cs)"

text \<open>\<open>String.prototype.trim\<close> removes WhiteSpace and LineTerminator code units at both ends.\<close>

definition is_space :: "jschar \<Rightarrow> bool" where
  "is_space c \<longleftrightarrow>
     c \<in> {0x9, 0xA, 0xB, 0xC, 0xD, 0x20, 0xA0, 0x1680, 0x2028, 0x2029, 0x202F, 0x205F, 0x3000, 0xFEFF}
     \<or> (0x2000 \<le> c \<and> c \<le> 0x200A)"

definition trim :: "jsstring \<Rightarrow> jsstring" where
  "trim s = rev (dropWhile is_space (rev (dropWhile is_space s)))"

section \<open>Sanitizer and validators (validators.js)\<close>

text \<open>\<open>/[\x00-\x08\x0B\x0C\x0E-\x1F\x7F]/g\<close>: one class of five ranges, no \<open>i\<close> flag.\<close>

definition control_regex :: regex where
  "control_regex = Class [(0x00, 0x08), (0x0B, 0x0B), (0x0C, 0x0C), (0x0E, 0x1F), (0x7F, 0x7F)]"

text \<open>
  \<open>/<script\b[^<]*(?:(?!<\/script>)<[^<]*)*<\/script>/gi\<close>, with its parts named:
  \<open>not_lt_star\<close> is \<open>[^<]*\<close>, \<open>close_tag\<close> is \<open><\/script>\<close>, \<open>inner_group\<close> is
  \<open>(?!<\/script>)<[^<]*\<close>.
\<close>

definition not_lt_star :: regex where
  "not_lt_star = Star (NotChr 0x3C)"

definition close_tag :: regex where
  "close_tag = lit (js ''</script>'')"

definition inner_group :: regex where
  "inner_group = Seq (NotAhead close_tag) (Seq (Chr 0x3C) not_lt_star)"

definition script_regex :: regex where
  "script_regex =
     Seq (lit (js ''<script''))
       (Seq WordBoundary (Seq not_lt_star (Seq (Star inner_group) close_tag)))"

definition sanitizeString :: "jsval \<Rightarrow> jsstring" where
  "sanitizeString input =
     (case input of
        JString str \<Rightarrow>
          take 10000 (replace_global True script_regex (replace_global False control_regex (trim str)))
      | _ \<Rightarrow> [])"

subsection \<open>Field validators\<close>

text \<open>
  \<open>Number(value)\<close>: the conversion of a string (the numeric-literal grammar) and of an
  object (to a primitive first) belongs to the language, not to this repository; it is
  the parameter \<open>conv\<close>, which may also raise.
\<close>

definition to_number :: "(jsval \<Rightarrow> error + jsnum) \<Rightarrow> jsval \<Rightarrow> error + jsnum" where
  "to_number conv v =
     (case v of
        Undefined \<Rightarrow> Inr NaN
      | Null \<Rightarrow> Inr (Fin 0)
      | JBool b \<Rightarrow> Inr (Fin (if b then 1 else 0))
      | JNumber n \<Rightarrow> Inr n
      | _ \<Rightarrow> conv v)"

fun num_less :: "jsnum \<Rightarrow> jsnum \<Rightarrow> bool" where
  "num_less NaN y = False"
| "num_less x NaN = False"
| "num_less (Fin a) (Fin b) = (a < b)"
| "num_less (Fin a) PosInf = True"
| "num_less (Fin a) NegInf = False"
| "num_less PosInf y = False"
| "num_less NegInf NegInf = False"
| "num_less NegInf y = True"

definition and_then :: "error + 'a \<Rightarrow> ('a \<Rightarrow> error + 'b) \<Rightarrow> error + 'b" where
  "and_then r f = (case r of Inl e \<Rightarrow> Inl e | Inr x \<Rightarrow> f x)"

text \<open>
  \<open>minimum\<close> and \<open>maximum\<close> are the source's \<open>min\<close> and \<open>max\<close>; every call in this module
  passes both, as integers. \<open>value?.length || 0\<close> is 0 for a missing value.
\<close>

definition validateLength :: "jsstring option \<Rightarrow> int \<Rightarrow> int \<Rightarrow> jsstring \<Rightarrow> error + bool" where
  "validateLength value minimum maximum fieldName =
     (let len = int (case value of None \<Rightarrow> 0 | Some v \<Rightarrow> length v) in
      if len < minimum
      then Inl (Error (fieldName @ js '' must be at least '' @ show_int minimum
                         @ js '' characters long''))
      else if len > maximum
      then Inl (Error (fieldName @ js '' must not exceed '' @ show_int maximum
                         @ js '' characters''))
      else Inr True)"

definition validateRequired :: "jsval \<Rightarrow> jsstring \<Rightarrow> error + jsstring" where
  "validateRequired value fieldName =
     (let sanitized = sanitizeString value in
      if sanitized = [] \<or> length sanitized = 0
      then Inl (Error (fieldName @ js '' is required and cannot be empty''))
      else Inr sanitized)"

definition validateOptional :: "jsval \<Rightarrow> int \<Rightarrow> int \<Rightarrow> jsstring \<Rightarrow> error + jsstring option" where
  "validateOptional value minimum maximum fieldName =
     (if \<not> truthy value then Inr None
      else
        (let sanitized = sanitizeString value in
         if length sanitized = 0 then Inr None
         else and_then (validateLength (Some sanitized) minimum maximum fieldName)
                (\<lambda>ok. Inr (Some sanitized))))"

definition validateNumber ::
  "(jsval \<Rightarrow> error + jsnum) \<Rightarrow> jsval \<Rightarrow> int \<Rightarrow> int \<Rightarrow> jsstring \<Rightarrow> error + jsnum" where
  "validateNumber conv value minimum maximum fieldName =
     and_then (to_number conv value)
       (\<lambda>num.
          if num = NaN then Inl (Error (fieldName @ js '' must be a valid number''))
          else if num_less num (Fin (of_int minimum)) \<or> num_less (Fin (of_int maximum)) num
          then Inl (Error (fieldName @ js '' must be between '' @ show_int minimum
                             @ js '' and '' @ show_int maximum))
          else Inr num)"

subsection \<open>Module input\<close>

record module_input =
  titleEn :: jsstring
  descriptionEn :: jsstring
  shortCode :: "jsstring option"
  dqsNumber :: "jsstring option"
  bkz :: "jsstring option"
  pricePerUE :: "jsnum option"
  pricePerModule :: "jsnum option"
  ue45 :: "jsnum option"
  weeks :: "jsnum option"
  curriculum :: "jsstring option"
  nrMab :: "jsstring option"
  certificate :: "jsstring option"

text \<open>
  The fields of the object literal are evaluated in order and the first failure is
  thrown; then the two length checks run. The bounds are those of
  \<open>VALIDATION_RULES.module\<close>: titleEn 3 to 200, descriptionEn 10 to 5000, shortCode 2 to
  20, dqsNumber 1 to 50, curriculum at most 10000. \<open>None\<close> is \<open>null\<close>.
\<close>

definition validateModuleInput ::
  "(jsval \<Rightarrow> error + jsnum) \<Rightarrow> document \<Rightarrow> error + module_input" where
  "validateModuleInput conv data =
     and_then (validateRequired (get_prop data (js ''titleEn'')) (js ''English Title'')) (\<lambda>v1.
     and_then (validateRequired (get_prop data (js ''descriptionEn'')) (js ''English Description'')) (\<lambda>v2.
     and_then (validateOptional (get_prop data (js ''shortCode'')) 2 20 (js ''Short Code'')) (\<lambda>v3.
     and_then (validateOptional (get_prop data (js ''dqsNumber'')) 1 50 (js ''DQS Number'')) (\<lambda>v4.
     and_then (validateOptional (get_prop data (js ''bkz'')) 1 50 (js ''BKZ'')) (\<lambda>v5.
     and_then (if truthy (get_prop data (js ''pricePerUE''))
               then and_then (validateNumber conv (get_prop data (js ''pricePerUE'')) 0 1000000
                               (js ''Price per UE'')) (\<lambda>n. Inr (Some n))
               else Inr None) (\<lambda>v6.
     and_then (if truthy (get_prop data (js ''pricePerModule''))
               then and_then (validateNumber conv (get_prop data (js ''pricePerModule'')) 0 1000000
                               (js ''Price per Module'')) (\<lambda>n. Inr (Some n))
               else Inr None) (\<lambda>v7.
     and_then (if truthy (get_prop data (js ''ue45''))
               then and_then (validateNumber conv (get_prop data (js ''ue45'')) 1 1000
                               (js ''UE in 45 Min'')) (\<lambda>n. Inr (Some n))
               else Inr None) (\<lambda>v8.
     and_then (if truthy (get_prop data (js ''weeks''))
               then and_then (validateNumber conv (get_prop data (js ''weeks'')) 1 104
                               (js ''Weeks'')) (\<lambda>n. Inr (Some n))
               else Inr None) (\<lambda>v9.
     and_then (validateOptional (get_prop data (js ''curriculum'')) 0 10000 (js ''Curriculum'')) (\<lambda>v10.
     and_then (validateOptional (get_prop data (js ''nrMab'')) 0 50 (js ''Nr MAB'')) (\<lambda>v11.
     and_then (validateOptional (get_prop data (js ''certificate'')) 0 200 (js ''Certificate'')) (\<lambda>v12.
     and_then (validateLength (Some v1) 3 200 (js ''English Title'')) (\<lambda>ok1.
     and_then (validateLength (Some v2) 10 5000 (js ''English Description'')) (\<lambda>ok2.
       Inr \<lparr>titleEn = v1, descriptionEn = v2, shortCode = v3, dqsNumber = v4, bkz = v5,
            pricePerUE = v6, pricePerModule = v7, ue45 = v8, weeks = v9, curriculum = v10,
            nrMab = v11, certificate = v12\<rparr>))))))))))))))"

subsection \<open>The sanitizer as the specification words it\<close>

text \<open>
  The control characters are the ordinal ranges 0x00-0x08, 0x0B-0x0C, 0x0E-0x1F and
  0x7F. Script-tag markup starts at an opening tag, \<open><script\<close> in any case that is not
  followed by a word character, and runs through the first closing tag \<open></script>\<close>, in
  any case, behind it; an opening tag with no closing tag behind it stays.
\<close>

definition is_control :: "jschar \<Rightarrow> bool" where
  "is_control c \<longleftrightarrow> c \<le> 0x08 \<or> (0x0B \<le> c \<and> c \<le> 0x0C) \<or> (0x0E \<le> c \<and> c \<le> 0x1F) \<or> c = 0x7F"

fun ci_prefix :: "jsstring \<Rightarrow> jsstring \<Rightarrow> bool" where
  "ci_prefix [] ys = True"
| "ci_prefix (c # cs) [] = False"
| "ci_prefix (c # cs) (y # ys) = (canon True y = canon True c \<and> ci_prefix cs ys)"

definition opens_script :: "jsstring \<Rightarrow> bool" where
  "opens_script ys \<longleftrightarrow>
     ci_prefix (js ''<script'') ys \<and> (case drop 7 ys of [] \<Rightarrow> True | c # cs \<Rightarrow> \<not> is_word c)"

fun after_close :: "jsstring \<Rightarrow> jsstring option" where
  "after_close [] = None"
| "after_close (y # ys) =
     (if ci_prefix (js ''</script>'') (y # ys) then Some (drop 9 (y # ys)) else after_close ys)"

function strip_script_tags :: "jsstring \<Rightarrow> jsstring" where
  "strip_script_tags [] = []"
| "strip_script_tags (y # ys) =
     (if opens_script (y # ys)
      then (case after_close (drop 7 (y # ys)) of
              Some rest \<Rightarrow> strip_script_tags rest
            | None \<Rightarrow> y # strip_script_tags ys)
      else y # strip_script_tags ys)"
  by pat_completeness auto
termination
proof (relation "measure length")
  have shorter: "length rest \<le> length xs" if "after_close xs = Some rest" for xs rest
    using that by (induction xs) (auto split: if_splits)
  show "wf (measure length)" by simp
  show "(ys, y # ys) \<in> measure length" for y :: jschar and ys
    by simp
  show "(rest, y # ys) \<in> measure length"
    if "opens_script (y # ys)" and "after_close (drop 7 (y # ys)) = Some rest" for y ys rest
    using shorter [OF that(2)] by simp
  show "(ys, y # ys) \<in> measure length" for y :: jschar and ys
    by simp
qed

definition spec_sanitize :: "jsstring \<Rightarrow> jsstring" where
  "spec_sanitize str =
     take 10000 (strip_script_tags (filter (\<lambda>c. \<not> is_control c) (trim str)))"

text \<open>What \<open>[^<]*\<close> can leave of its input, the longest match first.\<close>

fun skips :: "jsstring \<Rightarrow> jsstring list" where
  "skips [] = [[]]"
| "skips (y # ys) = (if y \<noteq> 0x3C then skips ys @ [y # ys] else [y # ys])"

section \<open>Authentication and authorization middleware\<close>

subsection \<open>The document store and the world\<close>

text \<open>
  A collection is the list of its documents (id and data) in the order a query returns
  them. The world holds the store, the log of the calls made to it, and what was
  written to \<open>console.error\<close>. Reads are answered from the store; the outcome of a write
  (rejected with an error, or accepted under a new id) is an argument of the writer.
\<close>

type_synonym collection = "(jsstring \<times> document) list"
type_synonym firestore = "jsstring \<Rightarrow> collection"

datatype store_op =
    Get jsstring jsstring
  | Query jsstring jsstring jsval nat
  | Add jsstring document

record world =
  store :: firestore
  ops :: "store_op list"
  console :: "(jsstring \<times> error) list"

definition doc_get :: "world \<Rightarrow> jsstring \<Rightarrow> jsstring \<Rightarrow> document option \<times> world" where
  "doc_get w coll ident =
     (map_of (store w coll) ident, w\<lparr>ops := ops w @ [Get coll ident]\<rparr>)"

definition matching :: "firestore \<Rightarrow> jsstring \<Rightarrow> jsstring \<Rightarrow> jsval \<Rightarrow> collection" where
  "matching db coll field v = filter (\<lambda>d. map_of (snd d) field = Some v) (db coll)"

definition query_eq :: "world \<Rightarrow> jsstring \<Rightarrow> jsstring \<Rightarrow> jsval \<Rightarrow> nat \<Rightarrow> collection \<times> world" where
  "query_eq w coll field v n =
     (take n (matching (store w) coll field v), w\<lparr>ops := ops w @ [Query coll field v n]\<rparr>)"

definition collection_add ::
  "error + jsstring \<Rightarrow> world \<Rightarrow> jsstring \<Rightarrow> document \<Rightarrow> (error + jsstring) \<times> world" where
  "collection_add outcome w coll d =
     (case outcome of
        Inl e \<Rightarrow> (Inl e, w\<lparr>ops := ops w @ [Add coll d]\<rparr>)
      | Inr ident \<Rightarrow>
          (Inr ident,
           w\<lparr>store := (store w)(coll := store w coll @ [(ident, d)]),
             ops := ops w @ [Add coll d]\<rparr>))"

subsection \<open>Roles\<close>

definition ROLES :: "jsstring list" where
  "ROLES = [js ''sysadmin'', js ''programOwner'', js ''operations'']"

definition ROLE_HIERARCHY :: "(jsstring \<times> int) list" where
  "ROLE_HIERARCHY = [(js ''sysadmin'', 3), (js ''programOwner'', 2), (js ''operations'', 1)]"

text \<open>
  \<open>ROLE_HIERARCHY[role] || 0\<close>: the number the table owns for the role (each is truthy),
  else what \<open>Object.prototype\<close> has under that name (truthy), else \<open>0\<close>.
\<close>

datatype level = Level int | Builtin jsstring

definition hierarchy_level :: "jsstring \<Rightarrow> level" where
  "hierarchy_level r =
     (case map_of ROLE_HIERARCHY r of
        Some n \<Rightarrow> Level n
      | None \<Rightarrow> if r \<in> set object_prototype_names then Builtin r else Level 0)"

fun level_less :: "level \<Rightarrow> level \<Rightarrow> bool" where
  "level_less (Level a) (Level b) = (a < b)"
| "level_less (Builtin x) (Builtin y) = string_less (inherited_primitive x) (inherited_primitive y)"
| "level_less (Level a) (Builtin y) = False"
| "level_less (Builtin x) (Level b) = False"

subsection \<open>Requests, contexts, options\<close>

record token =
  tok_email :: jsval
  tok_role :: jsval

record auth =
  uid :: jsstring
  token :: token

record request =
  req_auth :: "auth option"

record user_context =
  ctx_userId :: jsstring
  ctx_email :: jsval
  ctx_role :: jsstring
  ctx_displayName :: jsval
  ctx_active :: jsval

datatype roles_arg = OneRole jsstring | RoleArray "jsstring list"

record ownership =
  own_resourceType :: jsstring
  own_resourceId :: jsstring
  own_ownerField :: "jsstring option"

text \<open>
  The options of \<open>authorizeRequest\<close> under the names the function binds them to;
  \<open>None\<close> is the default \<open>null\<close>.
\<close>

record options =
  opt_requireRoles :: "roles_arg option"
  opt_minRole :: "jsstring option"
  opt_requireActiveRound :: bool
  opt_ownership :: "ownership option"

record authorized =
  userContext :: user_context
  activeRound :: "document option"

subsection \<open>The checks\<close>

definition authenticateUser :: "world \<Rightarrow> request \<Rightarrow> (error + user_context) \<times> world" where
  "authenticateUser w request =
     (case req_auth request of
        None \<Rightarrow> (Inl (Error (js ''Unauthorized: No authentication provided'')), w)
      | Some a \<Rightarrow>
          (case doc_get w (js ''users'') (uid a) of
             (None, w') \<Rightarrow> (Inl (Error (js ''Unauthorized: User not found in system'')), w')
           | (Some userData, w') \<Rightarrow>
               if \<not> truthy (get_prop userData (js ''active''))
               then (Inl (Error (js ''Unauthorized: User account is deactivated'')), w')
               else
                 (case (if truthy (tok_role (token a)) then tok_role (token a)
                        else get_prop userData (js ''role'')) of
                    JString r \<Rightarrow>
                      if r \<noteq> [] \<and> r \<in> set ROLES
                      then (Inr \<lparr>ctx_userId = uid a, ctx_email = tok_email (token a),
                                 ctx_role = r,
                                 ctx_displayName = get_prop userData (js ''displayName''),
                                 ctx_active = get_prop userData (js ''active'')\<rparr>, w')
                      else (Inl (Error (js ''Unauthorized: Invalid user role'')), w')
                  | _ \<Rightarrow> (Inl (Error (js ''Unauthorized: Invalid user role'')), w'))))"

fun join :: "jsstring \<Rightarrow> jsstring list \<Rightarrow> jsstring" where
  "join sep [] = []"
| "join sep [x] = x"
| "join sep (x # y # ys) = x @ sep @ join sep (y # ys)"

definition requireRole :: "user_context \<Rightarrow> roles_arg \<Rightarrow> error + bool" where
  "requireRole ctx requiredRoles =
     (let roles = (case requiredRoles of RoleArray rs \<Rightarrow> rs | OneRole r \<Rightarrow> [r]) in
      if ctx_role ctx \<notin> set roles
      then Inl (Error (js ''Forbidden: Requires one of these roles: '' @ join (js '', '') roles))
      else Inr True)"

definition requireMinRole :: "user_context \<Rightarrow> jsstring \<Rightarrow> error + bool" where
  "requireMinRole ctx minRole =
     (let userLevel = hierarchy_level (ctx_role ctx);
          requiredLevel = hierarchy_level minRole in
      if level_less userLevel requiredLevel
      then Inl (Error (js ''Forbidden: Requires minimum role: '' @ minRole))
      else Inr True)"

definition no_active_round_message :: jsstring where
  "no_active_round_message =
     js ''Forbidden: No active certification round. Changes are not allowed.''"

definition requireActiveCertificationRound :: "world \<Rightarrow> (error + document) \<times> world" where
  "requireActiveCertificationRound w =
     (case query_eq w (js ''certificationRounds'') (js ''status'') (JString (js ''active'')) 1 of
        ([], w') \<Rightarrow> (Inl (Error no_active_round_message), w')
      | (d # ds, w') \<Rightarrow> (Inr (snd d), w'))"

definition not_found_message :: "jsstring \<Rightarrow> jsstring" where
  "not_found_message resourceType = resourceType @ js '' not found''"

definition not_owner_message :: "jsstring \<Rightarrow> jsstring" where
  "not_owner_message resourceType = js ''Forbidden: You do not own this '' @ resourceType"

definition requireOwnership ::
  "world \<Rightarrow> user_context \<Rightarrow> jsstring \<Rightarrow> jsstring \<Rightarrow> jsstring option \<Rightarrow> (error + bool) \<times> world" where
  "requireOwnership w ctx resourceType resourceId ownerField =
     (if ctx_role ctx = js ''sysadmin'' then (Inr True, w)
      else
        (case doc_get w resourceType resourceId of
           (None, w') \<Rightarrow> (Inl (Error (not_found_message resourceType)), w')
         | (Some resourceData, w') \<Rightarrow>
             if get_prop resourceData (case ownerField of None \<Rightarrow> js ''createdBy'' | Some f \<Rightarrow> f)
                  \<noteq> JString (ctx_userId ctx)
             then (Inl (Error (not_owner_message resourceType)), w')
             else (Inr True, w')))"

definition roles_given :: "roles_arg option \<Rightarrow> bool" where
  "roles_given requireRoles =
     (case requireRoles of
        None \<Rightarrow> False
      | Some (OneRole r) \<Rightarrow> r \<noteq> []
      | Some (RoleArray rs) \<Rightarrow> True)"

definition min_role_given :: "jsstring option \<Rightarrow> bool" where
  "min_role_given minRole = (case minRole of None \<Rightarrow> False | Some r \<Rightarrow> r \<noteq> [])"

definition authorizeRequest :: "world \<Rightarrow> request \<Rightarrow> options \<Rightarrow> (error + authorized) \<times> world" where
  "authorizeRequest w request options =
     (case authenticateUser w request of
        (Inl e, w1) \<Rightarrow> (Inl e, w1)
      | (Inr ctx, w1) \<Rightarrow>
          (case (if roles_given (opt_requireRoles options)
                 then requireRole ctx (the (opt_requireRoles options)) else Inr True) of
             Inl e \<Rightarrow> (Inl e, w1)
           | Inr _ \<Rightarrow>
               (case (if min_role_given (opt_minRole options)
                      then requireMinRole ctx (the (opt_minRole options)) else Inr True) of
                  Inl e \<Rightarrow> (Inl e, w1)
                | Inr _ \<Rightarrow>
                    (case (if opt_requireActiveRound options
                           then (case requireActiveCertificationRound w1 of
                                   (Inl e, w2) \<Rightarrow> (Inl e, w2)
                                 | (Inr d, w2) \<Rightarrow> (Inr (Some d), w2))
                           else (Inr None, w1)) of
                       (Inl e, w2) \<Rightarrow> (Inl e, w2)
                     | (Inr found, w2) \<Rightarrow>
                         (case (case opt_ownership options of
                                  None \<Rightarrow> (Inr True, w2)
                                | Some own \<Rightarrow>
                                    requireOwnership w2 ctx (own_resourceType own)
                                      (own_resourceId own) (own_ownerField own)) of
                            (Inl e, w3) \<Rightarrow> (Inl e, w3)
                          | (Inr _, w3) \<Rightarrow>
                              (Inr \<lparr>userContext = ctx, activeRound = found\<rparr>, w3))))))"

subsection \<open>Audit log\<close>

text \<open>
  The entry is built inside the \<open>try\<close> block, in the order of the object literal:
  reading \<open>userContext.userId\<close> of a missing context and \<open>details.ipAddress\<close> of
  \<open>null\<close> raise there. A missing \<open>details\<close> is the default \<open>{}\<close>; a primitive has no
  \<open>ipAddress\<close>.
\<close>

definition audit_entry ::
  "jsstring \<Rightarrow> user_context option \<Rightarrow> jsstring \<Rightarrow> jsstring \<Rightarrow> jsval \<Rightarrow> error + document" where
  "audit_entry action ctx resourceType resourceId details0 =
     (let details = (if details0 = Undefined then JObject [] else details0) in
      case ctx of
        None \<Rightarrow> Inl (TypeError (js ''Cannot read properties of undefined''))
      | Some c \<Rightarrow>
          if details = Null then Inl (TypeError (js ''Cannot read properties of null''))
          else
            (let ip = (case details of JObject fs \<Rightarrow> get_prop fs (js ''ipAddress'') | _ \<Rightarrow> Undefined)
             in Inr [(js ''action'', JString action),
                     (js ''userId'', JString (ctx_userId c)),
                     (js ''userEmail'', ctx_email c),
                     (js ''userRole'', JString (ctx_role c)),
                     (js ''resourceType'', JString resourceType),
                     (js ''resourceId'', JString resourceId),
                     (js ''details'', details),
                     (js ''timestamp'', ServerTimestamp),
                     (js ''ipAddress'', if truthy ip then ip else Null)]))"

definition logAudit ::
  "error + jsstring \<Rightarrow> world \<Rightarrow> jsstring \<Rightarrow> user_context option \<Rightarrow> jsstring \<Rightarrow> jsstring \<Rightarrow> jsval
     \<Rightarrow> (error + unit) \<times> world" where
  "logAudit outcome w action ctx resourceType resourceId details =
     (case (case audit_entry action ctx resourceType resourceId details of
              Inl e \<Rightarrow> (Inl e, w)
            | Inr d \<Rightarrow> collection_add outcome w (js ''auditLogs'') d) of
        (Inl e, w') \<Rightarrow> (Inr (), w'\<lparr>console := console w' @ [(js ''Audit log failed:'', e)]\<rparr>)
      | (Inr ident, w') \<Rightarrow> (Inr (), w'))"

subsection \<open>The hierarchy as the specification words it\<close>

text \<open>
  The level of a role in the specification's words: sysadmin is 3, programOwner is 2,
  operations is 1, any other role is 0. It is compared with \<open>hierarchy_level\<close>, which
  follows the source.
\<close>

definition spec_level :: "jsstring \<Rightarrow> int" where
  "spec_level r =
     (if r = js ''sysadmin'' then 3
      else if r = js ''programOwner'' then 2
      else if r = js ''operations'' then 1
      else 0)"

subsection \<open>Example inputs\<close>

definition users_ex :: collection where
  "users_ex =
     [(js ''admin1'', [(js ''active'', JBool True), (js ''role'', JString (js ''sysadmin'')),
                       (js ''displayName'', JString (js ''Admin''))]),
      (js ''owner1'', [(js ''active'', JBool True), (js ''role'', JString (js ''programOwner'')),
                       (js ''displayName'', JString (js ''Owner''))])]"

definition modules_ex :: collection where
  "modules_ex = [(js ''m1'', [(js ''createdBy'', JString (js ''owner1''))])]"

definition world_closed :: world where
  "world_closed =
     \<lparr>store = (\<lambda>c. if c = js ''users'' then users_ex
                    else if c = js ''modules'' then modules_ex
                    else if c = js ''certificationRounds''
                      then [(js ''r1'', [(js ''status'', JString (js ''closed''))])]
                    else []),
      ops = [], console = []\<rparr>"

definition world_open :: world where
  "world_open =
     \<lparr>store = (\<lambda>c. if c = js ''users'' then users_ex
                    else if c = js ''modules'' then modules_ex
                    else if c = js ''certificationRounds''
                      then [(js ''r1'', [(js ''status'', JString (js ''closed''))]),
                            (js ''r2'', [(js ''status'', JString (js ''active'')),
                                         (js ''name'', JString (js ''Round 2''))])]
                    else []),
      ops = [], console = []\<rparr>"

definition module_ex :: document where
  "module_ex =
     [(js ''titleEn'', JString (js ''Intro to JS'')),
      (js ''descriptionEn'', JString (js ''Variables and functions'')),
      (js ''pricePerUE'', JNumber (Fin 0)),
      (js ''pricePerModule'', JString []),
      (js ''weeks'', JNumber (Fin 4))]"

definition conv_ex :: "jsval \<Rightarrow> error + jsnum" where
  "conv_ex v = Inr NaN"

definition request_of :: "jsstring \<Rightarrow> request" where
  "request_of u =
     \<lparr>req_auth = Some \<lparr>uid = u,
         token = \<lparr>tok_email = JString (js ''someone@wbs.de''), tok_role = Undefined\<rparr>\<rparr>\<rparr>"

definition round_required :: options where
  "round_required =
     \<lparr>opt_requireRoles = None, opt_minRole = None, opt_requireActiveRound = True,
      opt_ownership = None\<rparr>"

definition owner_options :: options where
  "owner_options =
     \<lparr>opt_requireRoles = None, opt_minRole = Some (js ''programOwner''),
      opt_requireActiveRound = True,
      opt_ownership = Some \<lparr>own_resourceType = js ''modules'', own_resourceId = js ''m1'',
                              own_ownerField = None\<rparr>\<rparr>"

definition context_of :: "jsstring \<Rightarrow> jsstring \<Rightarrow> user_context" where
  "context_of u r =
     \<lparr>ctx_userId = u, ctx_email = JString (js ''someone@wbs.de''), ctx_role = r,
      ctx_displayName = JString (js ''Someone''), ctx_active = JBool True\<rparr>"

definition hash_store_ex :: hash_store where
  "hash_store_ex = [js ''u1:hello'' \<mapsto> 1000000, js ''u2:bye'' \<mapsto> 0]"

section \<open>Duplicate-content detection\<close>

lemma checkDuplicateContent_rejected:
  "is_recent m (content_hash u c) now w \<Longrightarrow>
     checkDuplicateContent m now u c a w = (Inl (Error duplicate_message), m)"
  by (simp add: checkDuplicateContent_def Let_def)

lemma checkDuplicateContent_accepted:
  "\<not> is_recent m (content_hash u c) now w \<Longrightarrow>
     checkDuplicateContent m now u c a w
       = (Inr True, cleanup now w (m(content_hash u c \<mapsto> now)))"
  by (simp add: checkDuplicateContent_def Let_def)

lemma checkDuplicateContent_Inl_iff:
  "(\<exists>e. fst (checkDuplicateContent m now u c a w) = Inl e) \<longleftrightarrow> is_recent m (content_hash u c) now w"
  by (simp add: checkDuplicateContent_def Let_def)

lemma cleanup_Some:
  "cleanup now w m k = Some t \<longleftrightarrow> m k = Some t \<and> \<not> now - t > w * 2"
  by (auto simp: cleanup_def split: option.splits)

lemma after_accept_lookup:
  "cleanup now w (m(h \<mapsto> now)) h = (if 0 > w * 2 then None else Some now)"
  by (simp add: cleanup_def)

text \<open>
  C8, as stated, for every call: a rejected call throws before the clean-up loop, so an
  entry older than \<open>2 * windowMs\<close> under another key is still in the store afterwards.
\<close>

theorem rejected_call_keeps_old_entry:
  "checkDuplicateContent hash_store_ex 1000010 (js ''u1'') (js ''hello'') (js ''createComment'') 30000
     = (Inl (Error duplicate_message), hash_store_ex)
   \<and> hash_store_ex (js ''u2:bye'') = Some 0 \<and> 1000010 - 0 > (30000::int) * 2"
  by (simp add: checkDuplicateContent_def content_hash_def is_recent_def hash_store_ex_def js_def)

text \<open>
  C8, amended: after a call to \<open>checkDuplicateContent\<close> that is accepted (returns
  \<open>true\<close>), no entry of the store, under whichever key, has a timestamp more than
  \<open>2 * windowMs\<close> before \<open>now\<close>: every such entry has been removed, and no other entry
  has.
\<close>

theorem checkDuplicateContent_sweeps_store:
  assumes "checkDuplicateContent m now u c a w = (Inr True, m')"
  shows "(\<forall>k t. m' k = Some t \<longrightarrow> \<not> now - t > w * 2)
    \<and> (\<forall>k t. (m(content_hash u c \<mapsto> now)) k = Some t \<and> \<not> now - t > w * 2 \<longrightarrow> m' k = Some t)"
proof -
  from assms have "m' = cleanup now w (m(content_hash u c \<mapsto> now))"
    by (auto simp: checkDuplicateContent_def Let_def split: if_splits)
  then show ?thesis
    by (simp add: cleanup_Some)
qed

theorem checkDuplicateContent_sweeps_store_witness:
  "checkDuplicateContent hash_store_ex 1000010 (js ''u3'') (js ''new text'') (js ''createComment'') 30000
     = (Inr True, [js ''u1:hello'' \<mapsto> 1000000, js ''u3:new text'' \<mapsto> 1000010])
   \<and> [js ''u1:hello'' \<mapsto> 1000000, js ''u3:new text'' \<mapsto> (1000010::int)] (js ''u1:hello'')
       = Some 1000000
   \<and> \<not> 1000010 - 1000000 > (30000::int) * 2
   \<and> [js ''u1:hello'' \<mapsto> 1000000, js ''u3:new text'' \<mapsto> (1000010::int)] (js ''u2:bye'') = None"
proof -
  let ?m' = "[js ''u1:hello'' \<mapsto> 1000000, js ''u3:new text'' \<mapsto> (1000010::int)]"
  have h: "checkDuplicateContent hash_store_ex 1000010 (js ''u3'') (js ''new text'') (js ''createComment'') 30000
     = (Inr True, ?m')"
    by (auto simp: checkDuplicateContent_def content_hash_def is_recent_def hash_store_ex_def
        cleanup_def js_def fun_eq_iff)
  have k: "?m' (js ''u1:hello'') = Some 1000000" by (simp add: js_def)
  have n: "?m' (js ''u2:bye'') = None" by (simp add: js_def)
  from checkDuplicateContent_sweeps_store [OF h, THEN conjunct1, rule_format, OF k] h k n
  show ?thesis by (intro conjI)
qed

lemma rejected_store_unchanged:
  "checkDuplicateContent m now u c a w = (Inl e, m') \<Longrightarrow> m' = m"
  by (auto simp: checkDuplicateContent_def Let_def split: if_splits)

lemma attempts_all_rejected:
  "attempts m u c as = (rs, m') \<Longrightarrow> \<forall>r\<in>set rs. \<exists>e. r = Inl e \<Longrightarrow> m' = m"
proof (induction as arbitrary: m rs m')
  case Nil
  then show ?case by simp
next
  case (Cons x as)
  obtain now a w where x: "x = (now, a, w)" by (cases x)
  obtain r m1 where c1: "checkDuplicateContent m now u c a w = (r, m1)"
    by (cases "checkDuplicateContent m now u c a w")
  obtain rs' m2 where c2: "attempts m1 u c as = (rs', m2)"
    by (cases "attempts m1 u c as")
  from Cons.prems(1) x c1 c2 have rs: "rs = r # rs'" and m': "m' = m2" by auto
  from Cons.prems(2) rs obtain e where "r = Inl e" by auto
  with c1 have "m1 = m" by (auto dest: rejected_store_unchanged)
  moreover from Cons.prems(2) rs have "\<forall>r\<in>set rs'. \<exists>e. r = Inl e" by simp
  ultimately show ?case using Cons.IH [OF c2] m' by simp
qed

lemma accepted_then_lookup:
  assumes "checkDuplicateContent m t0 u c a w = (Inr True, m0)"
  shows "m0 (content_hash u c) = (if 0 > w * 2 then None else Some t0)"
proof -
  from assms have "m0 = cleanup t0 w (m(content_hash u c \<mapsto> t0))"
    by (auto simp: checkDuplicateContent_def Let_def split: if_splits)
  then show ?thesis by (simp add: after_accept_lookup)
qed

text \<open>
  C9. A call rejected as a duplicate leaves the store exactly as it was: the timestamp of
  the colliding key is not refreshed and nothing is swept. Hence, after an accepted
  submission at \<open>t0\<close> and any number of rejected attempts with the same content, a
  resubmission at a time \<open>t\<close> with \<open>windowMs \<le> t - t0\<close> is accepted.
\<close>

theorem rejected_duplicate_leaves_store:
  "(\<forall>m now u c a w e.
      fst (checkDuplicateContent m now u c a w) = Inl e
        \<longrightarrow> snd (checkDuplicateContent m now u c a w) = m)
   \<and> (\<forall>m t0 u c a0 w0 m0 as rs m1 t a w.
        checkDuplicateContent m t0 u c a0 w0 = (Inr True, m0)
        \<and> attempts m0 u c as = (rs, m1) \<and> (\<forall>r\<in>set rs. \<exists>e. r = Inl e)
        \<and> w \<le> t - t0
          \<longrightarrow> fst (checkDuplicateContent m1 t u c a w) = Inr True)"
proof (intro conjI allI impI)
  fix m now u c a w e
  assume "fst (checkDuplicateContent m now u c a w) = Inl e"
  then show "snd (checkDuplicateContent m now u c a w) = m"
    by (cases "checkDuplicateContent m now u c a w") (auto dest: rejected_store_unchanged)
next
  fix m t0 u c a0 w0 m0 as rs m1 and t :: int and a w
  assume h: "checkDuplicateContent m t0 u c a0 w0 = (Inr True, m0)
        \<and> attempts m0 u c as = (rs, m1) \<and> (\<forall>r\<in>set rs. \<exists>e. r = Inl e) \<and> w \<le> t - t0"
  then have "m1 = m0" by (blast dest: attempts_all_rejected)
  moreover from h have "m0 (content_hash u c) = (if 0 > w0 * 2 then None else Some t0)"
    by (blast dest: accepted_then_lookup)
  moreover from h have "\<not> t - t0 < w" by simp
  ultimately have "\<not> is_recent m1 (content_hash u c) t w"
    by (simp add: is_recent_def)
  then show "fst (checkDuplicateContent m1 t u c a w) = Inr True"
    by (simp add: checkDuplicateContent_accepted)
qed

theorem rejected_duplicate_leaves_store_witness:
  "checkDuplicateContent Map.empty 0 (js ''u1'') (js ''hello'') (js ''createComment'') 30000
      = (Inr True, [js ''u1:hello'' \<mapsto> 0])
   \<and> attempts [js ''u1:hello'' \<mapsto> 0] (js ''u1'') (js ''hello'')
        [(10, js ''createComment'', 30000), (20000, js ''updateComment'', 30000)]
      = ([Inl (Error duplicate_message), Inl (Error duplicate_message)], [js ''u1:hello'' \<mapsto> 0])
   \<and> fst (checkDuplicateContent [js ''u1:hello'' \<mapsto> 0] 30000 (js ''u1'') (js ''hello'')
        (js ''createComment'') 30000) = Inr True
   \<and> snd (checkDuplicateContent [js ''u1:hello'' \<mapsto> 0] 10 (js ''u1'') (js ''hello'')
        (js ''createComment'') 30000) = [js ''u1:hello'' \<mapsto> 0]"
proof -
  let ?m0 = "[js ''u1:hello'' \<mapsto> (0::int)]"
  have h1: "checkDuplicateContent Map.empty 0 (js ''u1'') (js ''hello'') (js ''createComment'') 30000
      = (Inr True, ?m0)"
    by (auto simp: checkDuplicateContent_def content_hash_def is_recent_def cleanup_def js_def
        fun_eq_iff)
  have r: "\<And>now a. now < 30000 \<Longrightarrow>
      checkDuplicateContent ?m0 now (js ''u1'') (js ''hello'') a 30000
        = (Inl (Error duplicate_message), ?m0)"
    by (simp add: checkDuplicateContent_def content_hash_def is_recent_def js_def)
  have h2: "attempts ?m0 (js ''u1'') (js ''hello'')
        [(10, js ''createComment'', 30000), (20000, js ''updateComment'', 30000)]
      = ([Inl (Error duplicate_message), Inl (Error duplicate_message)], ?m0)"
    by (simp add: r)
  have h3: "\<forall>r\<in>set [Inl (Error duplicate_message), Inl (Error duplicate_message) :: error + bool].
      \<exists>e. r = Inl e"
    by simp
  have h4: "(30000::int) \<le> 30000 - 0" by simp
  have h5: "fst (checkDuplicateContent ?m0 10 (js ''u1'') (js ''hello'') (js ''createComment'') 30000)
      = Inl (Error duplicate_message)"
    by (simp add: r)
  from rejected_duplicate_leaves_store have
    a: "fst (checkDuplicateContent ?m0 10 (js ''u1'') (js ''hello'') (js ''createComment'') 30000)
          = Inl (Error duplicate_message)
        \<longrightarrow> snd (checkDuplicateContent ?m0 10 (js ''u1'') (js ''hello'') (js ''createComment'') 30000)
          = ?m0"
    and b: "checkDuplicateContent Map.empty 0 (js ''u1'') (js ''hello'') (js ''createComment'') 30000
          = (Inr True, ?m0)
        \<and> attempts ?m0 (js ''u1'') (js ''hello'')
            [(10, js ''createComment'', 30000), (20000, js ''updateComment'', 30000)]
          = ([Inl (Error duplicate_message), Inl (Error duplicate_message)], ?m0)
        \<and> (\<forall>r\<in>set [Inl (Error duplicate_message), Inl (Error duplicate_message) :: error + bool].
              \<exists>e. r = Inl e)
        \<and> (30000::int) \<le> 30000 - 0
        \<longrightarrow> fst (checkDuplicateContent ?m0 30000 (js ''u1'') (js ''hello'') (js ''createComment'') 30000)
          = Inr True"
    by blast+
  from a b h1 h2 h3 h4 h5 show ?thesis by blast
qed

text \<open>
  C4. The record is keyed on \<open>userId\<close> and the first 100 code units of \<open>content\<close>: the
  result does not depend on \<open>action\<close> nor on the content past 100. The call is rejected
  exactly when the store holds, for that key, a timestamp \<open>t\<close> with \<open>now - t < windowMs\<close>.
  After an accepted call at \<open>t1\<close>, a second call at \<open>t2\<close> with \<open>0 \<le> t2 - t1 < windowMs\<close> is
  rejected, whatever its action; with \<open>windowMs \<le> t2 - t1\<close> it is accepted. When the store
  has no record for the key the first call is accepted, so of two calls within the
  window the second fails, and of two calls a window apart both succeed.
\<close>

theorem checkDuplicateContent_key_and_window:
  "(\<forall>m now u c a a' w.
      checkDuplicateContent m now u c a w = checkDuplicateContent m now u c a' w)
   \<and> (\<forall>m now u c c' a w.
        take 100 c = take 100 c'
          \<longrightarrow> checkDuplicateContent m now u c a w = checkDuplicateContent m now u c' a w)
   \<and> (\<forall>m now u c a w.
        (fst (checkDuplicateContent m now u c a w) = Inl (Error duplicate_message))
          = (\<exists>t. m (u @ js '':'' @ take 100 c) = Some t \<and> now - t < w))
   \<and> (\<forall>m now u c a w.
        (fst (checkDuplicateContent m now u c a w) = Inr True)
          = (\<not> (\<exists>t. m (u @ js '':'' @ take 100 c) = Some t \<and> now - t < w)))
   \<and> (\<forall>m t1 t2 u c a1 a2 w m1.
        checkDuplicateContent m t1 u c a1 w = (Inr True, m1) \<and> 0 \<le> t2 - t1 \<and> t2 - t1 < w
          \<longrightarrow> fst (checkDuplicateContent m1 t2 u c a2 w) = Inl (Error duplicate_message))
   \<and> (\<forall>m t1 t2 u c a1 a2 w m1.
        checkDuplicateContent m t1 u c a1 w = (Inr True, m1) \<and> w \<le> t2 - t1
          \<longrightarrow> fst (checkDuplicateContent m1 t2 u c a2 w) = Inr True)
   \<and> (\<forall>m t1 t2 u c a1 a2 w.
        m (u @ js '':'' @ take 100 c) = None \<and> 0 \<le> t2 - t1 \<and> t2 - t1 < w
          \<longrightarrow> fst (checkDuplicateContent m t1 u c a1 w) = Inr True
              \<and> fst (checkDuplicateContent (snd (checkDuplicateContent m t1 u c a1 w)) t2 u c a2 w)
                  = Inl (Error duplicate_message))
   \<and> (\<forall>m t1 t2 u c a1 a2 w.
        m (u @ js '':'' @ take 100 c) = None \<and> w \<le> t2 - t1
          \<longrightarrow> fst (checkDuplicateContent m t1 u c a1 w) = Inr True
              \<and> fst (checkDuplicateContent (snd (checkDuplicateContent m t1 u c a1 w)) t2 u c a2 w)
                  = Inr True)"
proof -
  have within: "fst (checkDuplicateContent m1 t2 u c a2 w) = Inl (Error duplicate_message)"
    if h: "checkDuplicateContent m t1 u c a1 w = (Inr True, m1) \<and> 0 \<le> t2 - t1 \<and> t2 - t1 < w"
    for m t1 t2 u c a1 a2 w m1
  proof -
    from h have "m1 (content_hash u c) = (if 0 > w * 2 then None else Some t1)"
      by (blast dest: accepted_then_lookup)
    with h have "is_recent m1 (content_hash u c) t2 w"
      by (simp add: is_recent_def)
    then show ?thesis by (simp add: checkDuplicateContent_rejected)
  qed
  have gap: "fst (checkDuplicateContent m1 t2 u c a2 w) = Inr True"
    if h: "checkDuplicateContent m t1 u c a1 w = (Inr True, m1) \<and> w \<le> t2 - t1"
    for m t1 t2 u c a1 a2 w m1
  proof -
    from h have "m1 (content_hash u c) = (if 0 > w * 2 then None else Some t1)"
      by (blast dest: accepted_then_lookup)
    with h have "\<not> is_recent m1 (content_hash u c) t2 w"
      by (simp add: is_recent_def)
    then show ?thesis by (simp add: checkDuplicateContent_accepted)
  qed
  have first: "checkDuplicateContent m t1 u c a1 w
      = (Inr True, snd (checkDuplicateContent m t1 u c a1 w))"
    if "m (u @ js '':'' @ take 100 c) = None" for m t1 u c a1 w
    using that by (simp add: checkDuplicateContent_def content_hash_def is_recent_def)
  have twice_within: "fst (checkDuplicateContent m t1 u c a1 w) = Inr True
      \<and> fst (checkDuplicateContent (snd (checkDuplicateContent m t1 u c a1 w)) t2 u c a2 w)
          = Inl (Error duplicate_message)"
    if h: "m (u @ js '':'' @ take 100 c) = None \<and> 0 \<le> t2 - t1 \<and> t2 - t1 < w"
    for m t1 t2 u c a1 a2 w
  proof -
    from h have f: "checkDuplicateContent m t1 u c a1 w
        = (Inr True, snd (checkDuplicateContent m t1 u c a1 w))"
      by (intro first) simp
    from f h have "fst (checkDuplicateContent (snd (checkDuplicateContent m t1 u c a1 w)) t2 u c a2 w)
        = Inl (Error duplicate_message)"
      by (intro within [of m t1 u c a1 w]) simp
    moreover from f have "fst (checkDuplicateContent m t1 u c a1 w) = Inr True"
      by (metis fst_conv)
    ultimately show ?thesis by simp
  qed
  have twice_gap: "fst (checkDuplicateContent m t1 u c a1 w) = Inr True
      \<and> fst (checkDuplicateContent (snd (checkDuplicateContent m t1 u c a1 w)) t2 u c a2 w)
          = Inr True"
    if h: "m (u @ js '':'' @ take 100 c) = None \<and> w \<le> t2 - t1"
    for m t1 t2 u c a1 a2 w
  proof -
    from h have f: "checkDuplicateContent m t1 u c a1 w
        = (Inr True, snd (checkDuplicateContent m t1 u c a1 w))"
      by (intro first) simp
    from f h have "fst (checkDuplicateContent (snd (checkDuplicateContent m t1 u c a1 w)) t2 u c a2 w)
        = Inr True"
      by (intro gap [of m t1 u c a1 w]) simp
    moreover from f have "fst (checkDuplicateContent m t1 u c a1 w) = Inr True"
      by (metis fst_conv)
    ultimately show ?thesis by simp
  qed
  show ?thesis
  proof (intro conjI allI impI)
  fix m now u c a a' w
  show "checkDuplicateContent m now u c a w = checkDuplicateContent m now u c a' w"
    by (simp add: checkDuplicateContent_def)
next
  fix m now u c c' a w
  assume "take 100 c = take 100 (c' :: jsstring)"
  then show "checkDuplicateContent m now u c a w = checkDuplicateContent m now u c' a w"
    by (simp add: checkDuplicateContent_def content_hash_def)
next
  fix m now u c a w
  show "(fst (checkDuplicateContent m now u c a w) = Inl (Error duplicate_message))
          = (\<exists>t. m (u @ js '':'' @ take 100 c) = Some t \<and> now - t < w)"
    by (auto simp: checkDuplicateContent_def Let_def content_hash_def is_recent_def
        split: option.splits)
next
  fix m now u c a w
  show "(fst (checkDuplicateContent m now u c a w) = Inr True)
          = (\<not> (\<exists>t. m (u @ js '':'' @ take 100 c) = Some t \<and> now - t < w))"
    by (auto simp: checkDuplicateContent_def Let_def content_hash_def is_recent_def
        split: option.splits)
next
  fix m t1 t2 u c a1 a2 w m1
  assume "checkDuplicateContent m t1 u c a1 w = (Inr True, m1) \<and> 0 \<le> t2 - t1 \<and> t2 - t1 < w"
  then show "fst (checkDuplicateContent m1 t2 u c a2 w) = Inl (Error duplicate_message)"
    by (rule within)
next
  fix m t1 t2 u c a1 a2 w m1
  assume "checkDuplicateContent m t1 u c a1 w = (Inr True, m1) \<and> w \<le> t2 - t1"
  then show "fst (checkDuplicateContent m1 t2 u c a2 w) = Inr True"
    by (rule gap)
next
  fix m :: hash_store and t1 t2 :: int and u c a1 a2 :: jsstring and w :: int
  assume h: "m (u @ js '':'' @ take 100 c) = None \<and> 0 \<le> t2 - t1 \<and> t2 - t1 < w"
  have "fst (checkDuplicateContent m t1 u c a1 w) = Inr True
      \<and> fst (checkDuplicateContent (snd (checkDuplicateContent m t1 u c a1 w)) t2 u c a2 w)
          = Inl (Error duplicate_message)"
    using h by (rule twice_within)
  then show "fst (checkDuplicateContent m t1 u c a1 w) = Inr True"
    and "fst (checkDuplicateContent (snd (checkDuplicateContent m t1 u c a1 w)) t2 u c a2 w)
          = Inl (Error duplicate_message)"
    by simp_all
next
  fix m :: hash_store and t1 t2 :: int and u c a1 a2 :: jsstring and w :: int
  assume h: "m (u @ js '':'' @ take 100 c) = None \<and> w \<le> t2 - t1"
  have "fst (checkDuplicateContent m t1 u c a1 w) = Inr True
      \<and> fst (checkDuplicateContent (snd (checkDuplicateContent m t1 u c a1 w)) t2 u c a2 w)
          = Inr True"
    using h by (rule twice_gap)
  then show "fst (checkDuplicateContent m t1 u c a1 w) = Inr True"
    and "fst (checkDuplicateContent (snd (checkDuplicateContent m t1 u c a1 w)) t2 u c a2 w)
          = Inr True"
    by simp_all
qed
qed

theorem checkDuplicateContent_key_and_window_witness:
  "checkDuplicateContent Map.empty 0 (js ''u1'') (js ''same text'') (js ''createComment'') 30000
      = (Inr True, [js ''u1:same text'' \<mapsto> 0])
   \<and> fst (checkDuplicateContent [js ''u1:same text'' \<mapsto> 0] 29999 (js ''u1'') (js ''same text'')
        (js ''createModule'') 30000) = Inl (Error duplicate_message)
   \<and> fst (checkDuplicateContent [js ''u1:same text'' \<mapsto> 0] 30000 (js ''u1'') (js ''same text'')
        (js ''createModule'') 30000) = Inr True
   \<and> take 100 (replicate 100 0x61 @ js ''x'') = take 100 (replicate 100 0x61 @ js ''y'')
   \<and> checkDuplicateContent Map.empty 0 (js ''u1'') (replicate 100 0x61 @ js ''x'') (js ''a'') 30000
      = checkDuplicateContent Map.empty 0 (js ''u1'') (replicate 100 0x61 @ js ''y'') (js ''a'') 30000"
proof -
  let ?m1 = "[js ''u1:same text'' \<mapsto> (0::int)]"
  note T = checkDuplicateContent_key_and_window
  note within = T [THEN conjunct2, THEN conjunct2, THEN conjunct2, THEN conjunct2, THEN conjunct1,
      rule_format]
  note gap = T [THEN conjunct2, THEN conjunct2, THEN conjunct2, THEN conjunct2, THEN conjunct2,
      THEN conjunct1, rule_format]
  note prefix = T [THEN conjunct2, THEN conjunct1, rule_format]
  have h1: "checkDuplicateContent Map.empty 0 (js ''u1'') (js ''same text'') (js ''createComment'') 30000
      = (Inr True, ?m1)"
    by (auto simp: checkDuplicateContent_def content_hash_def is_recent_def cleanup_def js_def
        fun_eq_iff)
  have h2: "(0::int) \<le> 29999 - 0 \<and> (29999::int) - 0 < 30000" by simp
  have h3: "(30000::int) \<le> 30000 - 0" by simp
  have h4: "take 100 (replicate 100 0x61 @ js ''x'') = take 100 (replicate 100 (0x61::jschar) @ js ''y'')"
    by simp
  have a: "fst (checkDuplicateContent ?m1 29999 (js ''u1'') (js ''same text'') (js ''createModule'') 30000)
          = Inl (Error duplicate_message)"
    by (rule within [OF conjI [OF h1 h2]])
  have b: "fst (checkDuplicateContent ?m1 30000 (js ''u1'') (js ''same text'') (js ''createModule'') 30000)
          = Inr True"
    by (rule gap [OF conjI [OF h1 h3]])
  have c: "checkDuplicateContent Map.empty 0 (js ''u1'') (replicate 100 0x61 @ js ''x'') (js ''a'') 30000
          = checkDuplicateContent Map.empty 0 (js ''u1'') (replicate 100 0x61 @ js ''y'') (js ''a'') 30000"
    by (rule prefix [OF h4])
  from h1 a b h4 c show ?thesis by (intro conjI)
qed

section \<open>Rate limiting\<close>


lemma checkRateLimit_as_specified:
  assumes "1 \<le> m"
  shows "checkRateLimit s now u a m w =
     (let key = u @ js '':'' @ a;
          stored = (case s key of None \<Rightarrow> [] | Some l \<Rightarrow> l);
          pruned = filter (\<lambda>t. now - t < w) stored
      in if m \<le> int (length pruned) then (Inl (Error (rate_limit_message m a)), s)
         else (Inr True, s(key \<mapsto> pruned @ [now])))"
  using assms by (simp add: checkRateLimit_def Let_def split: option.splits)

lemma one_window_append:
  "one_window w (xs @ ys) \<longleftrightarrow>
     one_window w xs \<and> one_window w ys \<and> (\<forall>x\<in>set xs. \<forall>y\<in>set ys. y - x < w)"
  by (induction xs) auto

lemma rate_calls_append:
  "rate_calls s u a m w (xs @ ys) =
     (case rate_calls s u a m w xs of
        (rs, s') \<Rightarrow> (case rate_calls s' u a m w ys of (rs', s'') \<Rightarrow> (rs @ rs', s'')))"
  by (induction xs arbitrary: s) (auto split: prod.splits)

lemma rate_calls_accepted:
  assumes "s (u @ js '':'' @ a) = Some l"
    and "\<forall>x\<in>set l. \<forall>t\<in>set ts. t - x < w"
    and "one_window w ts"
    and "int (length l + length ts) \<le> m"
  shows "rate_calls s u a m w ts =
     (replicate (length ts) (Inr True), if ts = [] then s else s(u @ js '':'' @ a \<mapsto> l @ ts))"
  using assms
proof (induction ts arbitrary: s l)
  case Nil
  then show ?case by simp
next
  case (Cons t ts)
  let ?key = "u @ js '':'' @ a"
  from Cons.prems(2) have keep: "filter (\<lambda>x. t - x < w) l = l"
    by (simp add: filter_id_conv)
  from Cons.prems(4) have lt: "\<not> m \<le> int (length l)" by simp
  have step: "checkRateLimit s t u a m w = (Inr True, s(?key \<mapsto> l @ [t]))"
    using Cons.prems(1) keep lt by (simp add: checkRateLimit_def Let_def)
  let ?s' = "s(?key \<mapsto> l @ [t])"
  have 1: "?s' ?key = Some (l @ [t])" by simp
  have 2: "\<forall>x\<in>set (l @ [t]). \<forall>t'\<in>set ts. t' - x < w"
    using Cons.prems(2,3) by auto
  have 3: "one_window w ts" using Cons.prems(3) by simp
  have 4: "int (length (l @ [t]) + length ts) \<le> m" using Cons.prems(4) by simp
  have ih: "rate_calls ?s' u a m w ts =
      (replicate (length ts) (Inr True), if ts = [] then ?s' else ?s'(?key \<mapsto> (l @ [t]) @ ts))"
    by (rule Cons.IH [of ?s' "l @ [t]", OF 1 2 3 4])
  have st: "(if ts = [] then ?s' else ?s'(?key \<mapsto> (l @ [t]) @ ts)) = s(?key \<mapsto> l @ t # ts)"
    by simp
  show ?case by (simp only: rate_calls.simps step ih st prod.case) (simp add: fun_upd_def)
qed

lemma rate_calls_fresh:
  assumes "s (u @ js '':'' @ a) = None"
    and "one_window w ts"
    and "int (length ts) \<le> m"
  shows "rate_calls s u a m w ts =
     (replicate (length ts) (Inr True), if ts = [] then s else s(u @ js '':'' @ a \<mapsto> ts))"
proof (cases ts)
  case Nil
  then show ?thesis by simp
next
  case (Cons t ts')
  let ?key = "u @ js '':'' @ a"
  have step: "checkRateLimit s t u a m w = (Inr True, s(?key \<mapsto> [t]))"
    using assms(1) by (simp add: checkRateLimit_def Let_def)
  have 1: "(s(?key \<mapsto> [t])) ?key = Some [t]" by simp
  have 2: "\<forall>x\<in>set [t]. \<forall>t'\<in>set ts'. t' - x < w" using assms(2) Cons by simp
  have 3: "one_window w ts'" using assms(2) Cons by simp
  have 4: "int (length [t] + length ts') \<le> m" using assms(3) Cons by simp
  have run: "rate_calls (s(?key \<mapsto> [t])) u a m w ts' =
      (replicate (length ts') (Inr True),
       if ts' = [] then s(?key \<mapsto> [t]) else (s(?key \<mapsto> [t]))(?key \<mapsto> [t] @ ts'))"
    by (rule rate_calls_accepted [where s = "s(?key \<mapsto> [t])" and l = "[t]", OF 1 2 3 4])
  have st: "(if ts' = [] then s(?key \<mapsto> [t]) else (s(?key \<mapsto> [t]))(?key \<mapsto> [t] @ ts'))
      = s(?key \<mapsto> t # ts')"
    by simp
  show ?thesis unfolding Cons by (simp only: rate_calls.simps step run st prod.case replicate_Suc length_Cons list.simps if_False)
qed

lemma rate_calls_window_full:
  assumes "1 \<le> m" and "s (u @ js '':'' @ a) = None"
    and "int (length ts) = m" and "one_window w (ts @ [t])"
  shows "rate_calls s u a m w (ts @ [t]) =
     (replicate (length ts) (Inr True) @ [Inl (Error (rate_limit_message m a))],
      s(u @ js '':'' @ a \<mapsto> ts))"
proof -
  let ?key = "u @ js '':'' @ a"
  from assms(1,3) have ne: "ts \<noteq> []" by auto
  from assms(4) have w1: "one_window w ts" and w2: "\<forall>x\<in>set ts. t - x < w"
    by (simp_all add: one_window_append)
  from assms(3) have le: "int (length ts) \<le> m" by simp
  have run: "rate_calls s u a m w ts = (replicate (length ts) (Inr True), s(?key \<mapsto> ts))"
    using rate_calls_fresh [where s = s, OF assms(2) w1 le] ne by simp
  from w2 have keep: "filter (\<lambda>x. t - x < w) ts = ts"
    by (simp add: filter_id_conv)
  have last: "checkRateLimit (s(?key \<mapsto> ts)) t u a m w
      = (Inl (Error (rate_limit_message m a)), s(?key \<mapsto> ts))"
    using keep assms(3) by (simp add: checkRateLimit_def Let_def)
  show ?thesis
    by (simp only: rate_calls_append run prod.case rate_calls.simps last)
qed

lemma checkRateLimit_reset:
  assumes "1 \<le> m" and "\<forall>l. s (u @ js '':'' @ a) = Some l \<longrightarrow> (\<forall>x\<in>set l. w \<le> now - x)"
  shows "fst (checkRateLimit s now u a m w) = Inr True"
proof (cases "s (u @ js '':'' @ a)")
  case None
  then show ?thesis by (simp add: checkRateLimit_def Let_def)
next
  case (Some l)
  with assms(2) have "\<forall>x\<in>set l. \<not> now - x < w" by auto
  then have "filter (\<lambda>x. now - x < w) l = []" by (simp add: filter_empty_conv)
  with Some assms(1) show ?thesis by (simp add: checkRateLimit_def Let_def)
qed

lemma checkRateLimit_rejected_store:
  "checkRateLimit s now u a m w = (Inl e, s') \<Longrightarrow> s' = s"
  by (auto simp: checkRateLimit_def Let_def split: option.splits if_splits)

text \<open>
  C1, as stated, for every \<open>maxRequests\<close>: with \<open>maxRequests = 0\<close> the first call for a key
  is accepted although the pruned count \<open>0\<close> is \<open>\<ge> maxRequests\<close>, and a call made after the
  window has elapsed is rejected, since the empty pruned list already has
  \<open>maxRequests\<close> entries.
\<close>

theorem checkRateLimit_zero_limit:
  "fst (checkRateLimit Map.empty 1000 (js ''u1'') (js ''createModule'') 0 60000) = Inr True
   \<and> fst (rate_calls Map.empty (js ''u1'') (js ''createModule'') 0 60000 [1000, 2000, 200000])
       = [Inr True, Inl (Error (rate_limit_message 0 (js ''createModule''))),
          Inl (Error (rate_limit_message 0 (js ''createModule'')))]"
  by (simp add: checkRateLimit_def js_def)

text \<open>
  C1, amended: for every \<open>userId\<close>, \<open>action\<close>, \<open>windowMs\<close> and every \<open>maxRequests \<ge> 1\<close>, a
  call computes the key \<open>userId:action\<close>, takes that key's timestamp list (empty when the
  key is new), keeps the entries \<open>t\<close> with \<open>now - t < windowMs\<close>, fails with the rate-limit
  error and an unchanged store if \<open>maxRequests\<close> or more are kept, and otherwise stores the
  kept entries followed by \<open>now\<close> and returns \<open>true\<close>. For a new key the first
  \<open>maxRequests\<close> calls within one window succeed and the next one within that window
  fails; a call made when every accepted call is at least \<open>windowMs\<close> old succeeds, also
  after a rejection.
\<close>

theorem checkRateLimit_positive_limit:
  "(\<forall>s now u a m w. 1 \<le> m \<longrightarrow>
      checkRateLimit s now u a m w =
        (let key = u @ js '':'' @ a;
             stored = (case s key of None \<Rightarrow> [] | Some l \<Rightarrow> l);
             pruned = filter (\<lambda>t. now - t < w) stored
         in if m \<le> int (length pruned) then (Inl (Error (rate_limit_message m a)), s)
            else (Inr True, s(key \<mapsto> pruned @ [now]))))
   \<and> (\<forall>s u a m w ts t.
        1 \<le> m \<and> s (u @ js '':'' @ a) = None \<and> int (length ts) = m \<and> one_window w (ts @ [t])
          \<longrightarrow> fst (rate_calls s u a m w (ts @ [t]))
              = replicate (length ts) (Inr True) @ [Inl (Error (rate_limit_message m a))])
   \<and> (\<forall>s u a m w ts t t'.
        1 \<le> m \<and> s (u @ js '':'' @ a) = None \<and> int (length ts) = m \<and> one_window w (ts @ [t])
        \<and> (\<forall>x\<in>set ts. w \<le> t' - x)
          \<longrightarrow> fst (rate_calls s u a m w (ts @ [t, t']))
              = replicate (length ts) (Inr True) @ [Inl (Error (rate_limit_message m a)), Inr True])
   \<and> (\<forall>s now u a m w.
        1 \<le> m \<and> (\<forall>l. s (u @ js '':'' @ a) = Some l \<longrightarrow> (\<forall>x\<in>set l. w \<le> now - x))
          \<longrightarrow> fst (checkRateLimit s now u a m w) = Inr True)"
proof (intro conjI allI impI)
  fix s now u a m w
  assume "(1::int) \<le> m"
  then show "checkRateLimit s now u a m w =
        (let key = u @ js '':'' @ a;
             stored = (case s key of None \<Rightarrow> [] | Some l \<Rightarrow> l);
             pruned = filter (\<lambda>t. now - t < w) stored
         in if m \<le> int (length pruned) then (Inl (Error (rate_limit_message m a)), s)
            else (Inr True, s(key \<mapsto> pruned @ [now])))"
    by (rule checkRateLimit_as_specified)
next
  fix s :: rate_store and u a and m w :: int and ts and t :: int
  assume "1 \<le> m \<and> s (u @ js '':'' @ a) = None \<and> int (length ts) = m \<and> one_window w (ts @ [t])"
  then show "fst (rate_calls s u a m w (ts @ [t]))
      = replicate (length ts) (Inr True) @ [Inl (Error (rate_limit_message m a))]"
    by (simp add: rate_calls_window_full)
next
  fix s :: rate_store and u a and m w :: int and ts and t t' :: int
  assume h: "1 \<le> m \<and> s (u @ js '':'' @ a) = None \<and> int (length ts) = m \<and> one_window w (ts @ [t])
        \<and> (\<forall>x\<in>set ts. w \<le> t' - x)"
  let ?key = "u @ js '':'' @ a"
  from h have run: "rate_calls s u a m w (ts @ [t]) =
     (replicate (length ts) (Inr True) @ [Inl (Error (rate_limit_message m a))], s(?key \<mapsto> ts))"
    by (simp add: rate_calls_window_full)
  from h have "fst (checkRateLimit (s(?key \<mapsto> ts)) t' u a m w) = Inr True"
    by (intro checkRateLimit_reset) auto
  then obtain s' where last: "checkRateLimit (s(?key \<mapsto> ts)) t' u a m w = (Inr True, s')"
    by (cases "checkRateLimit (s(?key \<mapsto> ts)) t' u a m w") auto
  have "rate_calls s u a m w ((ts @ [t]) @ [t']) =
     (replicate (length ts) (Inr True) @ [Inl (Error (rate_limit_message m a)), Inr True], s')"
    by (simp only: rate_calls_append [of _ _ _ _ _ "ts @ [t]"] run prod.case rate_calls.simps last)
      simp
  then show "fst (rate_calls s u a m w (ts @ [t, t']))
      = replicate (length ts) (Inr True) @ [Inl (Error (rate_limit_message m a)), Inr True]"
    by simp
next
  fix s :: rate_store and now :: int and u a and m w :: int
  assume "1 \<le> m \<and> (\<forall>l. s (u @ js '':'' @ a) = Some l \<longrightarrow> (\<forall>x\<in>set l. w \<le> now - x))"
  then show "fst (checkRateLimit s now u a m w) = Inr True"
    by (intro checkRateLimit_reset) auto
qed

theorem checkRateLimit_positive_limit_witness:
  "(1::int) \<le> 2 \<and> (Map.empty :: rate_store) (js ''u1'' @ js '':'' @ js ''createModule'') = None
   \<and> int (length [1000, 2000 :: int]) = 2 \<and> one_window 60000 ([1000, 2000] @ [3000])
   \<and> (60000::int) \<le> 70000 - 1000 \<and> (60000::int) \<le> 70000 - 2000
   \<and> fst (rate_calls Map.empty (js ''u1'') (js ''createModule'') 2 60000 ([1000, 2000] @ [3000, 70000]))
       = replicate (length [1000, 2000 :: int]) (Inr True)
           @ [Inl (Error (rate_limit_message 2 (js ''createModule''))), Inr True]"
proof -
  note reset = checkRateLimit_positive_limit [THEN conjunct2, THEN conjunct2, THEN conjunct1,
      rule_format]
  have h: "(1::int) \<le> 2 \<and> (Map.empty :: rate_store) (js ''u1'' @ js '':'' @ js ''createModule'') = None
   \<and> int (length [1000, 2000 :: int]) = 2 \<and> one_window 60000 ([1000, 2000] @ [3000])
   \<and> (\<forall>x\<in>set [1000, 2000 :: int]. 60000 \<le> 70000 - x)"
    by simp
  from reset [OF h] h show ?thesis by (intro conjI) simp_all
qed

section \<open>Role hierarchy\<close>


lemma authenticateUser_role:
  "authenticateUser w request = (Inr ctx, w') \<Longrightarrow> ctx_role ctx \<in> set ROLES"
  by (auto simp: authenticateUser_def doc_get_def split: option.splits jsval.splits if_splits)

lemma role_names_not_inherited:
  "js ''sysadmin'' \<notin> set object_prototype_names"
  "js ''programOwner'' \<notin> set object_prototype_names"
  "js ''operations'' \<notin> set object_prototype_names"
  by (simp_all add: object_prototype_names_def js_def)

lemma hierarchy_level_plain:
  "r \<notin> set object_prototype_names \<Longrightarrow> hierarchy_level r = Level (spec_level r)"
  by (simp add: hierarchy_level_def ROLE_HIERARCHY_def spec_level_def)

lemma hierarchy_level_inherited:
  "r \<in> set object_prototype_names \<Longrightarrow> hierarchy_level r = Builtin r \<and> spec_level r = 0"
  using role_names_not_inherited
  by (auto simp: hierarchy_level_def ROLE_HIERARCHY_def spec_level_def)

lemma spec_level_range: "0 \<le> spec_level r \<and> spec_level r \<le> 3"
  by (simp add: spec_level_def)

lemma level_less_plain:
  assumes "r \<notin> set object_prototype_names"
  shows "level_less (hierarchy_level r) (hierarchy_level m) \<longleftrightarrow> spec_level r < spec_level m"
proof (cases "m \<in> set object_prototype_names")
  case True
  with assms show ?thesis
    using spec_level_range [of r]
    by (simp add: hierarchy_level_plain hierarchy_level_inherited)
next
  case False
  with assms show ?thesis by (simp add: hierarchy_level_plain)
qed

text \<open>
  Where the role of the context is not the name of a property of \<open>Object.prototype\<close>,
  the lookup \<open>ROLE_HIERARCHY[role] || 0\<close> is the level of the table, or 0: there
  \<open>requireMinRole\<close> succeeds if and only if the level of the role is at least the level of
  the minimum role, fails with the Forbidden error otherwise, and a role of a higher
  level passes every requirement that a role of a lower level passes. Every role that
  \<open>authenticateUser\<close> admits is such a role.
\<close>

lemma requireMinRole_levels:
  "(\<forall>ctx m. ctx_role ctx \<notin> set object_prototype_names \<longrightarrow>
      (requireMinRole ctx m = Inr True) = (spec_level m \<le> spec_level (ctx_role ctx)))
   \<and> (\<forall>ctx m. ctx_role ctx \<notin> set object_prototype_names \<longrightarrow>
      (requireMinRole ctx m = Inl (Error (js ''Forbidden: Requires minimum role: '' @ m)))
        = (spec_level (ctx_role ctx) < spec_level m))
   \<and> (\<forall>ctx. ctx_role ctx \<notin> set object_prototype_names \<longrightarrow>
      (requireMinRole ctx (js ''programOwner'') = Inr True) = (2 \<le> spec_level (ctx_role ctx)))
   \<and> (\<forall>ctx ctx' m.
        ctx_role ctx \<notin> set object_prototype_names \<and> ctx_role ctx' \<notin> set object_prototype_names
        \<and> spec_level (ctx_role ctx) \<le> spec_level (ctx_role ctx') \<and> requireMinRole ctx m = Inr True
          \<longrightarrow> requireMinRole ctx' m = Inr True)
   \<and> (\<forall>ctx. ctx_role ctx \<in> set ROLES \<longrightarrow> ctx_role ctx \<notin> set object_prototype_names)
   \<and> (\<forall>w request ctx w'.
        authenticateUser w request = (Inr ctx, w')
          \<longrightarrow> ctx_role ctx \<notin> set object_prototype_names)"
proof -
  have a: "(requireMinRole ctx m = Inr True) = (spec_level m \<le> spec_level (ctx_role ctx))"
    and b: "(requireMinRole ctx m = Inl (Error (js ''Forbidden: Requires minimum role: '' @ m)))
        = (spec_level (ctx_role ctx) < spec_level m)"
    if "ctx_role ctx \<notin> set object_prototype_names" for ctx m
    using level_less_plain [OF that, of m] by (auto simp: requireMinRole_def Let_def)
  have c: "(requireMinRole ctx (js ''programOwner'') = Inr True) = (2 \<le> spec_level (ctx_role ctx))"
    if "ctx_role ctx \<notin> set object_prototype_names" for ctx
    using a [OF that, of "js ''programOwner''"] by (simp add: spec_level_def js_def)
  have d: "requireMinRole ctx' m = Inr True"
    if "ctx_role ctx \<notin> set object_prototype_names \<and> ctx_role ctx' \<notin> set object_prototype_names
        \<and> spec_level (ctx_role ctx) \<le> spec_level (ctx_role ctx') \<and> requireMinRole ctx m = Inr True"
    for ctx ctx' m
    using that a [of ctx m] a [of ctx' m] by simp
  have e: "ctx_role ctx \<notin> set object_prototype_names" if "ctx_role ctx \<in> set ROLES" for ctx
    using that role_names_not_inherited by (auto simp: ROLES_def)
  have f: "ctx_role ctx \<notin> set object_prototype_names"
    if "authenticateUser w request = (Inr ctx, w')" for w request ctx w'
    using authenticateUser_role [OF that] by (rule e)
  from a b c d e f show ?thesis by blast
qed

lemma requireMinRole_levels_example:
  "ctx_role (context_of (js ''u1'') (js ''operations'')) \<notin> set object_prototype_names
   \<and> requireMinRole (context_of (js ''u1'') (js ''operations'')) (js ''programOwner'')
       = Inl (Error (js ''Forbidden: Requires minimum role: '' @ js ''programOwner''))
   \<and> spec_level (ctx_role (context_of (js ''u1'') (js ''operations''))) < spec_level (js ''programOwner'')
   \<and> ctx_role (context_of (js ''u1'') (js ''sysadmin'')) \<notin> set object_prototype_names
   \<and> requireMinRole (context_of (js ''u1'') (js ''sysadmin'')) (js ''programOwner'') = Inr True
   \<and> requireMinRole (context_of (js ''u1'') (js ''sysadmin'')) (js ''valueOf'') = Inr True"
proof -
  note fails = requireMinRole_levels [THEN conjunct2, THEN conjunct1, rule_format]
  note passes = requireMinRole_levels [THEN conjunct1, rule_format]
  have h1: "ctx_role (context_of (js ''u1'') (js ''operations'')) \<notin> set object_prototype_names"
    by (simp add: context_of_def object_prototype_names_def js_def)
  have h2: "ctx_role (context_of (js ''u1'') (js ''sysadmin'')) \<notin> set object_prototype_names"
    by (simp add: context_of_def object_prototype_names_def js_def)
  have l1: "spec_level (ctx_role (context_of (js ''u1'') (js ''operations''))) < spec_level (js ''programOwner'')"
    by (simp add: context_of_def spec_level_def js_def)
  have l2: "spec_level (js ''programOwner'') \<le> spec_level (ctx_role (context_of (js ''u1'') (js ''sysadmin'')))"
    by (simp add: context_of_def spec_level_def js_def)
  have l3: "spec_level (js ''valueOf'') \<le> spec_level (ctx_role (context_of (js ''u1'') (js ''sysadmin'')))"
    by (simp add: context_of_def spec_level_def js_def)
  from fails [OF h1, of "js ''programOwner''"] l1
  have r1: "requireMinRole (context_of (js ''u1'') (js ''operations'')) (js ''programOwner'')
       = Inl (Error (js ''Forbidden: Requires minimum role: '' @ js ''programOwner''))"
    by simp
  from passes [OF h2, of "js ''programOwner''"] l2
  have r2: "requireMinRole (context_of (js ''u1'') (js ''sysadmin'')) (js ''programOwner'') = Inr True"
    by simp
  from passes [OF h2, of "js ''valueOf''"] l3
  have r3: "requireMinRole (context_of (js ''u1'') (js ''sysadmin'')) (js ''valueOf'') = Inr True"
    by simp
  from h1 r1 l1 h2 r2 r3 show ?thesis by (intro conjI)
qed

lemma requireMinRole_after_authentication:
  assumes "authenticateUser w request = (Inr ctx, w')"
  shows "(requireMinRole ctx m = Inr True) = (spec_level m \<le> spec_level (ctx_role ctx))"
    and "(requireMinRole ctx m = Inl (Error (js ''Forbidden: Requires minimum role: '' @ m)))
           = (spec_level (ctx_role ctx) < spec_level m)"
proof -
  from assms have "ctx_role ctx \<notin> set object_prototype_names"
    by (rule requireMinRole_levels [THEN conjunct2, THEN conjunct2, THEN conjunct2,
          THEN conjunct2, THEN conjunct2, rule_format])
  then show "(requireMinRole ctx m = Inr True) = (spec_level m \<le> spec_level (ctx_role ctx))"
    and "(requireMinRole ctx m = Inl (Error (js ''Forbidden: Requires minimum role: '' @ m)))
           = (spec_level (ctx_role ctx) < spec_level m)"
    by (simp_all add: requireMinRole_levels [THEN conjunct1, rule_format]
        requireMinRole_levels [THEN conjunct2, THEN conjunct1, rule_format])
qed

text \<open>
  C6. The level of a role is looked up with \<open>ROLE_HIERARCHY[role] || 0\<close>, and the lookup
  also finds what the table inherits from \<open>Object.prototype\<close>. The role \<open>toString\<close> is
  outside the set (the table has no key of that name), so its level as stated is 0,
  below the 3 of sysadmin and the 2 of programOwner; the lookup returns the inherited
  function, the comparison of a function with a number is false, and \<open>requireMinRole\<close>
  succeeds against both, while \<open>operations\<close>, of level 1, is refused against
  programOwner. With two inherited names the functions compare as strings: the role
  \<open>constructor\<close> is refused against the minimum role \<open>toString\<close>, where the stated levels
  are 0 and 0.
\<close>

theorem requireMinRole_inherited_role_name:
  "requireMinRole (context_of (js ''u1'') (js ''toString'')) (js ''programOwner'') = Inr True
   \<and> map_of ROLE_HIERARCHY (js ''toString'') = None
   \<and> requireMinRole (context_of (js ''u1'') (js ''toString'')) (js ''sysadmin'') = Inr True
   \<and> \<not> spec_level (js ''programOwner'') \<le> spec_level (js ''toString'')
   \<and> spec_level (js ''toString'') = 0 \<and> spec_level (js ''sysadmin'') = 3
   \<and> spec_level (js ''operations'') = 1
   \<and> requireMinRole (context_of (js ''u1'') (js ''operations'')) (js ''programOwner'')
       = Inl (Error (js ''Forbidden: Requires minimum role: '' @ js ''programOwner''))
   \<and> map_of ROLE_HIERARCHY (js ''constructor'') = None
   \<and> spec_level (js ''constructor'') = 0
   \<and> requireMinRole (context_of (js ''u1'') (js ''constructor'')) (js ''toString'')
       = Inl (Error (js ''Forbidden: Requires minimum role: '' @ js ''toString''))"
  by (simp add: requireMinRole_def context_of_def hierarchy_level_def ROLE_HIERARCHY_def
      object_prototype_names_def spec_level_def inherited_primitive_def js_def)

section \<open>Ownership, the active-round gate, the audit log\<close>


lemma get_prop_is_string:
  "get_prop d f = JString u \<longleftrightarrow> map_of d f = Some (JString u)"
  by (simp add: get_prop_def split: option.splits)

text \<open>
  C3. For a sysadmin context \<open>requireOwnership\<close> returns \<open>true\<close> and leaves the world as it
  is: no document is fetched, whatever the store holds. For any other role it fetches
  the document by id; it fails with the not-found error when the document is absent,
  with the Forbidden error when the document's owner field (\<open>createdBy\<close> when none is
  given) is not the string \<open>ctx.userId\<close>, and succeeds otherwise.
\<close>

theorem requireOwnership_cases:
  "(\<forall>w ctx rt rid f. ctx_role ctx = js ''sysadmin'' \<longrightarrow>
      requireOwnership w ctx rt rid f = (Inr True, w))
   \<and> (\<forall>w ctx rt rid f. ctx_role ctx \<noteq> js ''sysadmin'' \<longrightarrow>
        ops (snd (requireOwnership w ctx rt rid f)) = ops w @ [Get rt rid]
        \<and> store (snd (requireOwnership w ctx rt rid f)) = store w)
   \<and> (\<forall>w ctx rt rid f. ctx_role ctx \<noteq> js ''sysadmin'' \<and> map_of (store w rt) rid = None \<longrightarrow>
        fst (requireOwnership w ctx rt rid f) = Inl (Error (not_found_message rt)))
   \<and> (\<forall>w ctx rt rid f d.
        ctx_role ctx \<noteq> js ''sysadmin'' \<and> map_of (store w rt) rid = Some d
        \<and> map_of d (case f of None \<Rightarrow> js ''createdBy'' | Some g \<Rightarrow> g) \<noteq> Some (JString (ctx_userId ctx))
          \<longrightarrow> fst (requireOwnership w ctx rt rid f) = Inl (Error (not_owner_message rt)))
   \<and> (\<forall>w ctx rt rid f d.
        ctx_role ctx \<noteq> js ''sysadmin'' \<and> map_of (store w rt) rid = Some d
        \<and> map_of d (case f of None \<Rightarrow> js ''createdBy'' | Some g \<Rightarrow> g) = Some (JString (ctx_userId ctx))
          \<longrightarrow> fst (requireOwnership w ctx rt rid f) = Inr True)"
proof -
  have a: "requireOwnership w ctx rt rid f = (Inr True, w)"
    if "ctx_role ctx = js ''sysadmin''" for w ctx rt rid f
    using that by (simp add: requireOwnership_def)
  have b: "ops (snd (requireOwnership w ctx rt rid f)) = ops w @ [Get rt rid]
        \<and> store (snd (requireOwnership w ctx rt rid f)) = store w"
    if "ctx_role ctx \<noteq> js ''sysadmin''" for w ctx rt rid f
    using that by (simp add: requireOwnership_def doc_get_def split: option.splits)
  have c: "fst (requireOwnership w ctx rt rid f) = Inl (Error (not_found_message rt))"
    if "ctx_role ctx \<noteq> js ''sysadmin'' \<and> map_of (store w rt) rid = None" for w ctx rt rid f
    using that by (simp add: requireOwnership_def doc_get_def)
  have d: "fst (requireOwnership w ctx rt rid f) = Inl (Error (not_owner_message rt))"
    if "ctx_role ctx \<noteq> js ''sysadmin'' \<and> map_of (store w rt) rid = Some d
        \<and> map_of d (case f of None \<Rightarrow> js ''createdBy'' | Some g \<Rightarrow> g) \<noteq> Some (JString (ctx_userId ctx))"
    for w ctx rt rid f d
    using that by (simp add: requireOwnership_def doc_get_def get_prop_is_string)
  have e: "fst (requireOwnership w ctx rt rid f) = Inr True"
    if "ctx_role ctx \<noteq> js ''sysadmin'' \<and> map_of (store w rt) rid = Some d
        \<and> map_of d (case f of None \<Rightarrow> js ''createdBy'' | Some g \<Rightarrow> g) = Some (JString (ctx_userId ctx))"
    for w ctx rt rid f d
    using that by (simp add: requireOwnership_def doc_get_def get_prop_is_string)
  show ?thesis
    by (intro conjI allI impI;
        (erule a | erule b [THEN conjunct1] | erule b [THEN conjunct2] | erule c | erule d | erule e))
qed

theorem requireOwnership_cases_witness:
  "ctx_role (context_of (js ''admin1'') (js ''sysadmin'')) = js ''sysadmin''
   \<and> map_of (store world_closed (js ''modules'')) (js ''m1'') = Some [(js ''createdBy'', JString (js ''owner1''))]
   \<and> requireOwnership world_closed (context_of (js ''admin1'') (js ''sysadmin'')) (js ''modules'')
        (js ''m1'') None = (Inr True, world_closed)
   \<and> ops world_closed = []
   \<and> fst (requireOwnership world_closed (context_of (js ''ops1'') (js ''operations'')) (js ''modules'')
        (js ''m1'') None) = Inl (Error (not_owner_message (js ''modules'')))
   \<and> fst (requireOwnership world_closed (context_of (js ''owner1'') (js ''programOwner'')) (js ''modules'')
        (js ''m1'') None) = Inr True
   \<and> fst (requireOwnership world_closed (context_of (js ''owner1'') (js ''programOwner'')) (js ''modules'')
        (js ''m2'') None) = Inl (Error (not_found_message (js ''modules'')))
   \<and> ops (snd (requireOwnership world_closed (context_of (js ''owner1'') (js ''programOwner''))
        (js ''modules'') (js ''m1'') None)) = ops world_closed @ [Get (js ''modules'') (js ''m1'')]"
proof -
  note T = requireOwnership_cases
  note bypass = T [THEN conjunct1, rule_format]
  note fetch = T [THEN conjunct2, THEN conjunct1, rule_format]
  note absent = T [THEN conjunct2, THEN conjunct2, THEN conjunct1, rule_format]
  note other = T [THEN conjunct2, THEN conjunct2, THEN conjunct2, THEN conjunct1, rule_format]
  note owner = T [THEN conjunct2, THEN conjunct2, THEN conjunct2, THEN conjunct2, rule_format]
  let ?d = "[(js ''createdBy'', JString (js ''owner1''))]"
  have a: "ctx_role (context_of (js ''admin1'') (js ''sysadmin'')) = js ''sysadmin''"
    by (simp add: context_of_def)
  have m1: "map_of (store world_closed (js ''modules'')) (js ''m1'') = Some ?d"
    by (simp add: world_closed_def modules_ex_def js_def)
  have m2: "map_of (store world_closed (js ''modules'')) (js ''m2'') = None"
    by (simp add: world_closed_def modules_ex_def js_def)
  have o: "ops world_closed = []" by (simp add: world_closed_def)
  have n1: "ctx_role (context_of (js ''ops1'') (js ''operations'')) \<noteq> js ''sysadmin''"
    by (simp add: context_of_def js_def)
  have n2: "ctx_role (context_of (js ''owner1'') (js ''programOwner'')) \<noteq> js ''sysadmin''"
    by (simp add: context_of_def js_def)
  have f1: "map_of ?d (case None of None \<Rightarrow> js ''createdBy'' | Some g \<Rightarrow> g)
      \<noteq> Some (JString (ctx_userId (context_of (js ''ops1'') (js ''operations''))))"
    by (simp add: context_of_def js_def)
  have f2: "map_of ?d (case None of None \<Rightarrow> js ''createdBy'' | Some g \<Rightarrow> g)
      = Some (JString (ctx_userId (context_of (js ''owner1'') (js ''programOwner''))))"
    by (simp add: context_of_def js_def)
  note r1 = bypass [OF a, of world_closed "js ''modules''" "js ''m1''" None]
  note r2 = other [OF conjI [OF n1 conjI [OF m1 f1]]]
  note r3 = owner [OF conjI [OF n2 conjI [OF m1 f2]]]
  note r4 = absent [OF conjI [OF n2 m2], of None]
  note r5 = fetch [OF n2, of world_closed "js ''modules''" "js ''m1''" None, THEN conjunct1]
  from a m1 r1 o r2 r3 r4 r5 show ?thesis by (intro conjI)
qed


lemma matching_empty:
  "matching db c f v = [] \<longleftrightarrow> (\<forall>d\<in>set (db c). map_of (snd d) f \<noteq> Some v)"
  by (auto simp: matching_def filter_empty_conv)

lemma find_filter:
  "find P xs = Some d \<Longrightarrow> \<exists>ds. filter P xs = d # ds"
  by (induction xs) (auto split: if_splits)

lemma filter_find:
  "filter P xs = d # ds \<Longrightarrow> find P xs = Some d"
  by (induction xs) (auto split: if_splits)

lemma authenticateUser_store:
  "store (snd (authenticateUser w request)) = store w"
  by (simp add: authenticateUser_def doc_get_def split: option.splits jsval.splits)

lemma requireActive_fst:
  "fst (requireActiveCertificationRound w) =
     (case matching (store w) (js ''certificationRounds'') (js ''status'') (JString (js ''active'')) of
        [] \<Rightarrow> Inl (Error no_active_round_message)
      | d # ds \<Rightarrow> Inr (snd d))"
  by (simp add: requireActiveCertificationRound_def query_eq_def split: list.splits)

lemma requireActive_none:
  assumes "\<forall>d\<in>set (store w (js ''certificationRounds'')).
      map_of (snd d) (js ''status'') \<noteq> Some (JString (js ''active''))"
  shows "fst (requireActiveCertificationRound w) = Inl (Error no_active_round_message)"
  using assms by (simp add: requireActive_fst matching_empty [THEN iffD2])

lemma requireActive_found:
  assumes "find (\<lambda>d. map_of (snd d) (js ''status'') = Some (JString (js ''active'')))
      (store w (js ''certificationRounds'')) = Some d"
  shows "fst (requireActiveCertificationRound w) = Inr (snd d)"
  using find_filter [OF assms] by (auto simp: requireActive_fst matching_def)

lemma requireActive_Inr:
  assumes "fst (requireActiveCertificationRound w) = Inr x"
  shows "\<exists>d. find (\<lambda>d. map_of (snd d) (js ''status'') = Some (JString (js ''active'')))
      (store w (js ''certificationRounds'')) = Some d \<and> x = snd d"
proof (cases "matching (store w) (js ''certificationRounds'') (js ''status'') (JString (js ''active''))")
  case Nil
  with assms show ?thesis by (simp add: requireActive_fst)
next
  case (Cons d ds)
  then have "find (\<lambda>d. map_of (snd d) (js ''status'') = Some (JString (js ''active'')))
      (store w (js ''certificationRounds'')) = Some d"
    by (simp add: matching_def filter_find)
  moreover from Cons assms have "x = snd d" by (simp add: requireActive_fst)
  ultimately show ?thesis by blast
qed

lemma authorizeRequest_after_auth:
  assumes "authenticateUser w request = (Inr ctx, w1)"
    and "roles_given (opt_requireRoles options)
           \<longrightarrow> requireRole ctx (the (opt_requireRoles options)) = Inr True"
    and "min_role_given (opt_minRole options)
           \<longrightarrow> requireMinRole ctx (the (opt_minRole options)) = Inr True"
    and "opt_requireActiveRound options"
  shows "fst (authorizeRequest w request options) =
     (case fst (requireActiveCertificationRound w1) of
        Inl e \<Rightarrow> Inl e
      | Inr d \<Rightarrow>
          (case fst (case opt_ownership options of
                  None \<Rightarrow> (Inr True, snd (requireActiveCertificationRound w1))
                | Some own \<Rightarrow>
                    requireOwnership (snd (requireActiveCertificationRound w1)) ctx
                      (own_resourceType own) (own_resourceId own) (own_ownerField own)) of
             Inl e \<Rightarrow> Inl e
           | Inr _ \<Rightarrow> Inr \<lparr>userContext = ctx, activeRound = Some d\<rparr>))"
  using assms
  by (cases "requireActiveCertificationRound w1")
    (auto simp: authorizeRequest_def split: sum.splits prod.splits option.splits)


lemma requireRole_Inr: "requireRole ctx rs = Inr b \<Longrightarrow> b"
  by (simp add: requireRole_def Let_def split: if_splits)

lemma requireMinRole_Inr: "requireMinRole ctx m = Inr b \<Longrightarrow> b"
  by (simp add: requireMinRole_def Let_def split: if_splits)

lemma authorizeRequest_needs_round:
  assumes "opt_requireActiveRound options"
    and "fst (authorizeRequest w request options) = Inr res"
  shows "\<exists>ctx w1. authenticateUser w request = (Inr ctx, w1)
           \<and> fst (requireActiveCertificationRound w1) = Inr (the (activeRound res))
           \<and> activeRound res \<noteq> None"
proof (cases "authenticateUser w request")
  case (Pair r w1)
  show ?thesis
  proof (cases r)
    case (Inl e)
    with Pair assms(2) show ?thesis by (simp add: authorizeRequest_def)
  next
    case (Inr ctx)
    note auth = Pair [unfolded Inr]
    have 1: "roles_given (opt_requireRoles options)
           \<longrightarrow> requireRole ctx (the (opt_requireRoles options)) = Inr True"
      using assms(2) auth
      by (cases "requireRole ctx (the (opt_requireRoles options))")
        (auto simp: authorizeRequest_def dest: requireRole_Inr)
    have 2: "min_role_given (opt_minRole options)
           \<longrightarrow> requireMinRole ctx (the (opt_minRole options)) = Inr True"
      using assms(2) auth 1
      by (cases "requireMinRole ctx (the (opt_minRole options))")
        (auto simp: authorizeRequest_def dest: requireMinRole_Inr split: if_splits)
    from authorizeRequest_after_auth [OF auth 1 2 assms(1)] assms(2)
    have "fst (requireActiveCertificationRound w1) = Inr (the (activeRound res))
        \<and> activeRound res \<noteq> None"
      by (auto split: sum.splits)
    with auth show ?thesis by blast
  qed
qed

lemma requireOwnership_store_only:
  "store w' = store w \<Longrightarrow>
     fst (requireOwnership w' ctx rt rid f) = fst (requireOwnership w ctx rt rid f)"
  by (simp add: requireOwnership_def doc_get_def split: option.splits)

lemma requireActive_store:
  "store (snd (requireActiveCertificationRound w)) = store w"
  by (simp add: requireActiveCertificationRound_def query_eq_def split: list.splits)

lemma authorizeRequest_passes:
  assumes auth: "authenticateUser w request = (Inr ctx, w1)"
    and roles: "roles_given (opt_requireRoles options)
           \<longrightarrow> requireRole ctx (the (opt_requireRoles options)) = Inr True"
    and minrole: "min_role_given (opt_minRole options)
           \<longrightarrow> requireMinRole ctx (the (opt_minRole options)) = Inr True"
    and req: "opt_requireActiveRound options"
    and first: "find (\<lambda>d. map_of (snd d) (js ''status'') = Some (JString (js ''active'')))
               (store w (js ''certificationRounds'')) = Some d"
    and own: "\<forall>own. opt_ownership options = Some own
           \<longrightarrow> fst (requireOwnership w ctx (own_resourceType own) (own_resourceId own)
                      (own_ownerField own)) = Inr True"
  shows "fst (authorizeRequest w request options)
     = Inr \<lparr>userContext = ctx, activeRound = Some (snd d)\<rparr>"
proof -
  from auth have s1: "store w1 = store w"
    using authenticateUser_store [of w request] by simp
  with first have "find (\<lambda>d. map_of (snd d) (js ''status'') = Some (JString (js ''active'')))
               (store w1 (js ''certificationRounds'')) = Some d" by simp
  then have r: "fst (requireActiveCertificationRound w1) = Inr (snd d)"
    by (rule requireActive_found)
  let ?w2 = "snd (requireActiveCertificationRound w1)"
  have s2: "store ?w2 = store w" using requireActive_store [of w1] s1 by simp
  have o: "fst (case opt_ownership options of
                  None \<Rightarrow> (Inr True, ?w2)
                | Some own \<Rightarrow>
                    requireOwnership ?w2 ctx
                      (own_resourceType own) (own_resourceId own) (own_ownerField own)) = Inr True"
  proof (cases "opt_ownership options")
    case None
    then show ?thesis by simp
  next
    case (Some x)
    with own have "fst (requireOwnership w ctx (own_resourceType x) (own_resourceId x)
                      (own_ownerField x)) = Inr True" by simp
    with Some show ?thesis by (simp add: requireOwnership_store_only [OF s2])
  qed
  show ?thesis
    unfolding authorizeRequest_after_auth [OF auth roles minrole req] r o by simp
qed

text \<open>
  C2. When no document of \<open>certificationRounds\<close> has the status \<open>active\<close>,
  \<open>requireActiveCertificationRound\<close> fails with the Forbidden error "No active
  certification round. Changes are not allowed."; \<open>authorizeRequest\<close> with
  \<open>requireActiveRound\<close> then fails for every request, and fails with that very error for
  every authenticated caller that has passed the role checks, whatever the role. When
  such a round exists, the data of the first one the query returns is the result, and
  is the \<open>activeRound\<close> of every result of \<open>authorizeRequest\<close>; and \<open>authorizeRequest\<close>
  does return, with the caller's context and that round, for every authenticated caller
  that passes the role checks and the ownership check.
\<close>

theorem active_round_gate:
  "(\<forall>w. (\<forall>d\<in>set (store w (js ''certificationRounds'')).
             map_of (snd d) (js ''status'') \<noteq> Some (JString (js ''active'')))
        \<longrightarrow> fst (requireActiveCertificationRound w) = Inl (Error no_active_round_message))
   \<and> (\<forall>w d. find (\<lambda>d. map_of (snd d) (js ''status'') = Some (JString (js ''active'')))
               (store w (js ''certificationRounds'')) = Some d
        \<longrightarrow> fst (requireActiveCertificationRound w) = Inr (snd d))
   \<and> (\<forall>w request options.
        opt_requireActiveRound options
        \<and> (\<forall>d\<in>set (store w (js ''certificationRounds'')).
             map_of (snd d) (js ''status'') \<noteq> Some (JString (js ''active'')))
        \<longrightarrow> (\<exists>e. fst (authorizeRequest w request options) = Inl e))
   \<and> (\<forall>w request options ctx w1.
        opt_requireActiveRound options
        \<and> (\<forall>d\<in>set (store w (js ''certificationRounds'')).
             map_of (snd d) (js ''status'') \<noteq> Some (JString (js ''active'')))
        \<and> authenticateUser w request = (Inr ctx, w1)
        \<and> (roles_given (opt_requireRoles options)
             \<longrightarrow> requireRole ctx (the (opt_requireRoles options)) = Inr True)
        \<and> (min_role_given (opt_minRole options)
             \<longrightarrow> requireMinRole ctx (the (opt_minRole options)) = Inr True)
        \<longrightarrow> fst (authorizeRequest w request options) = Inl (Error no_active_round_message))
   \<and> (\<forall>w request options res.
        opt_requireActiveRound options \<and> fst (authorizeRequest w request options) = Inr res
        \<longrightarrow> (\<exists>d. find (\<lambda>d. map_of (snd d) (js ''status'') = Some (JString (js ''active'')))
                    (store w (js ''certificationRounds'')) = Some d
                 \<and> activeRound res = Some (snd d)))
   \<and> (\<forall>w request options ctx w1 d.
        opt_requireActiveRound options
        \<and> authenticateUser w request = (Inr ctx, w1)
        \<and> (roles_given (opt_requireRoles options)
             \<longrightarrow> requireRole ctx (the (opt_requireRoles options)) = Inr True)
        \<and> (min_role_given (opt_minRole options)
             \<longrightarrow> requireMinRole ctx (the (opt_minRole options)) = Inr True)
        \<and> find (\<lambda>d. map_of (snd d) (js ''status'') = Some (JString (js ''active'')))
              (store w (js ''certificationRounds'')) = Some d
        \<and> (\<forall>own. opt_ownership options = Some own
               \<longrightarrow> fst (requireOwnership w ctx (own_resourceType own) (own_resourceId own)
                          (own_ownerField own)) = Inr True)
        \<longrightarrow> fst (authorizeRequest w request options)
              = Inr \<lparr>userContext = ctx, activeRound = Some (snd d)\<rparr>)"
proof -
  let ?closed = "\<lambda>w. \<forall>d\<in>set (store w (js ''certificationRounds'')).
             map_of (snd d) (js ''status'') \<noteq> Some (JString (js ''active''))"
  let ?first = "\<lambda>w. find (\<lambda>d. map_of (snd d) (js ''status'') = Some (JString (js ''active'')))
               (store w (js ''certificationRounds''))"
  have a: "fst (requireActiveCertificationRound w) = Inl (Error no_active_round_message)"
    if "?closed w" for w
    using that by (rule requireActive_none)
  have b: "fst (requireActiveCertificationRound w) = Inr (snd d)" if "?first w = Some d" for w d
    using that by (rule requireActive_found)
  have d: "fst (authorizeRequest w request options) = Inl (Error no_active_round_message)"
    if h: "opt_requireActiveRound options \<and> ?closed w
        \<and> authenticateUser w request = (Inr ctx, w1)
        \<and> (roles_given (opt_requireRoles options)
             \<longrightarrow> requireRole ctx (the (opt_requireRoles options)) = Inr True)
        \<and> (min_role_given (opt_minRole options)
             \<longrightarrow> requireMinRole ctx (the (opt_minRole options)) = Inr True)"
    for w request options ctx w1
  proof -
    from h have "store w1 = store w"
      using authenticateUser_store [of w request] by simp
    with h have "?closed w1" by simp
    then have "fst (requireActiveCertificationRound w1) = Inl (Error no_active_round_message)"
      by (rule requireActive_none)
    moreover from h have "fst (authorizeRequest w request options) =
     (case fst (requireActiveCertificationRound w1) of
        Inl e \<Rightarrow> Inl e
      | Inr d \<Rightarrow>
          (case fst (case opt_ownership options of
                  None \<Rightarrow> (Inr True, snd (requireActiveCertificationRound w1))
                | Some own \<Rightarrow>
                    requireOwnership (snd (requireActiveCertificationRound w1)) ctx
                      (own_resourceType own) (own_resourceId own) (own_ownerField own)) of
             Inl e \<Rightarrow> Inl e
           | Inr _ \<Rightarrow> Inr \<lparr>userContext = ctx, activeRound = Some d\<rparr>))"
      by (intro authorizeRequest_after_auth) simp_all
    ultimately show ?thesis by simp
  qed
  have e: "\<exists>d. ?first w = Some d \<and> activeRound res = Some (snd d)"
    if h: "opt_requireActiveRound options \<and> fst (authorizeRequest w request options) = Inr res"
    for w request options res
  proof -
    from h obtain ctx w1 where auth: "authenticateUser w request = (Inr ctx, w1)"
      and r: "fst (requireActiveCertificationRound w1) = Inr (the (activeRound res))"
      and s: "activeRound res \<noteq> None"
      using authorizeRequest_needs_round [of options w request res] by blast
    from auth have "store w1 = store w"
      using authenticateUser_store [of w request] by simp
    with requireActive_Inr [OF r] s show ?thesis by auto
  qed
  have g: "fst (authorizeRequest w request options)
      = Inr \<lparr>userContext = ctx, activeRound = Some (snd d)\<rparr>"
    if h: "opt_requireActiveRound options
        \<and> authenticateUser w request = (Inr ctx, w1)
        \<and> (roles_given (opt_requireRoles options)
             \<longrightarrow> requireRole ctx (the (opt_requireRoles options)) = Inr True)
        \<and> (min_role_given (opt_minRole options)
             \<longrightarrow> requireMinRole ctx (the (opt_minRole options)) = Inr True)
        \<and> ?first w = Some d
        \<and> (\<forall>own. opt_ownership options = Some own
               \<longrightarrow> fst (requireOwnership w ctx (own_resourceType own) (own_resourceId own)
                          (own_ownerField own)) = Inr True)"
    for w request options ctx w1 d
    using h by (intro authorizeRequest_passes [of w request ctx w1]) simp_all
  have c: "\<exists>e. fst (authorizeRequest w request options) = Inl e"
    if h: "opt_requireActiveRound options \<and> ?closed w" for w request options
  proof (cases "fst (authorizeRequest w request options)")
    case (Inl x)
    then show ?thesis by blast
  next
    case (Inr res)
    with h e [of options w request res] obtain d where "?first w = Some d" by blast
    then have "d \<in> set (store w (js ''certificationRounds''))
        \<and> map_of (snd d) (js ''status'') = Some (JString (js ''active''))"
      by (auto simp: find_Some_iff)
    with h show ?thesis by blast
  qed
  show ?thesis
    by (intro conjI allI impI; (erule a | erule b | erule c | erule d | erule e | erule g))
qed


theorem active_round_gate_witness:
  "authenticateUser world_closed (request_of (js ''admin1''))
     = (Inr \<lparr>ctx_userId = js ''admin1'', ctx_email = JString (js ''someone@wbs.de''),
             ctx_role = js ''sysadmin'', ctx_displayName = JString (js ''Admin''),
             ctx_active = JBool True\<rparr>,
        world_closed\<lparr>ops := [Get (js ''users'') (js ''admin1'')]\<rparr>)
   \<and> opt_requireActiveRound round_required
   \<and> fst (authorizeRequest world_closed (request_of (js ''admin1'')) round_required)
       = Inl (Error no_active_round_message)
   \<and> fst (requireActiveCertificationRound world_closed) = Inl (Error no_active_round_message)
   \<and> fst (requireActiveCertificationRound world_open)
       = Inr [(js ''status'', JString (js ''active'')), (js ''name'', JString (js ''Round 2''))]
   \<and> fst (authorizeRequest world_open (request_of (js ''admin1'')) round_required)
       = Inr \<lparr>userContext =
                \<lparr>ctx_userId = js ''admin1'', ctx_email = JString (js ''someone@wbs.de''),
                 ctx_role = js ''sysadmin'', ctx_displayName = JString (js ''Admin''),
                 ctx_active = JBool True\<rparr>,
              activeRound = Some [(js ''status'', JString (js ''active'')),
                                  (js ''name'', JString (js ''Round 2''))]\<rparr>
   \<and> fst (authorizeRequest world_open (request_of (js ''owner1'')) owner_options)
       = Inr \<lparr>userContext =
                \<lparr>ctx_userId = js ''owner1'', ctx_email = JString (js ''someone@wbs.de''),
                 ctx_role = js ''programOwner'', ctx_displayName = JString (js ''Owner''),
                 ctx_active = JBool True\<rparr>,
              activeRound = Some [(js ''status'', JString (js ''active'')),
                                  (js ''name'', JString (js ''Round 2''))]\<rparr>"
proof -
  note T = active_round_gate
  note none = T [THEN conjunct1, THEN spec, THEN mp]
  note some = T [THEN conjunct2, THEN conjunct1, rule_format]
  note gate = T [THEN conjunct2, THEN conjunct2, THEN conjunct2, THEN conjunct1, rule_format]
  note pass = T [THEN conjunct2, THEN conjunct2, THEN conjunct2, THEN conjunct2, THEN conjunct2,
      rule_format]
  let ?ctx = "\<lparr>ctx_userId = js ''admin1'', ctx_email = JString (js ''someone@wbs.de''),
             ctx_role = js ''sysadmin'', ctx_displayName = JString (js ''Admin''),
             ctx_active = JBool True\<rparr>"
  let ?owner = "\<lparr>ctx_userId = js ''owner1'', ctx_email = JString (js ''someone@wbs.de''),
             ctx_role = js ''programOwner'', ctx_displayName = JString (js ''Owner''),
             ctx_active = JBool True\<rparr>"
  let ?w1 = "world_closed\<lparr>ops := [Get (js ''users'') (js ''admin1'')]\<rparr>"
  let ?round = "(js ''r2'', [(js ''status'', JString (js ''active'')), (js ''name'', JString (js ''Round 2''))])"
  have auth: "authenticateUser world_closed (request_of (js ''admin1'')) = (Inr ?ctx, ?w1)"
    by (simp add: authenticateUser_def doc_get_def world_closed_def users_ex_def request_of_def
        get_prop_def ROLES_def js_def)
  have auth2: "authenticateUser world_open (request_of (js ''admin1''))
      = (Inr ?ctx, world_open\<lparr>ops := [Get (js ''users'') (js ''admin1'')]\<rparr>)"
    by (simp add: authenticateUser_def doc_get_def world_open_def users_ex_def request_of_def
        get_prop_def ROLES_def js_def)
  have auth3: "authenticateUser world_open (request_of (js ''owner1''))
      = (Inr ?owner, world_open\<lparr>ops := [Get (js ''users'') (js ''owner1'')]\<rparr>)"
    by (simp add: authenticateUser_def doc_get_def world_open_def users_ex_def request_of_def
        get_prop_def ROLES_def js_def)
  have req: "opt_requireActiveRound round_required" by (simp add: round_required_def)
  have req3: "opt_requireActiveRound owner_options" by (simp add: owner_options_def)
  have closed: "\<forall>d\<in>set (store world_closed (js ''certificationRounds'')).
      map_of (snd d) (js ''status'') \<noteq> Some (JString (js ''active''))"
    by (simp add: world_closed_def js_def)
  have r1: "roles_given (opt_requireRoles round_required)
      \<longrightarrow> requireRole ?ctx (the (opt_requireRoles round_required)) = Inr True"
    by (simp add: round_required_def roles_given_def)
  have r2: "min_role_given (opt_minRole round_required)
      \<longrightarrow> requireMinRole ?ctx (the (opt_minRole round_required)) = Inr True"
    by (simp add: round_required_def min_role_given_def)
  have r3: "roles_given (opt_requireRoles owner_options)
      \<longrightarrow> requireRole ?owner (the (opt_requireRoles owner_options)) = Inr True"
    by (simp add: owner_options_def roles_given_def)
  have r4: "min_role_given (opt_minRole owner_options)
      \<longrightarrow> requireMinRole ?owner (the (opt_minRole owner_options)) = Inr True"
    by (simp add: owner_options_def min_role_given_def requireMinRole_def hierarchy_level_def
        ROLE_HIERARCHY_def js_def)
  have first: "find (\<lambda>d. map_of (snd d) (js ''status'') = Some (JString (js ''active'')))
      (store world_open (js ''certificationRounds'')) = Some ?round"
    by (simp add: world_open_def js_def)
  have o2: "\<forall>own. opt_ownership round_required = Some own
      \<longrightarrow> fst (requireOwnership world_open ?ctx (own_resourceType own) (own_resourceId own)
                 (own_ownerField own)) = Inr True"
    by (simp add: round_required_def)
  have o3: "\<forall>own. opt_ownership owner_options = Some own
      \<longrightarrow> fst (requireOwnership world_open ?owner (own_resourceType own) (own_resourceId own)
                 (own_ownerField own)) = Inr True"
    by (simp add: owner_options_def requireOwnership_def doc_get_def world_open_def
        modules_ex_def get_prop_def js_def)
  note g = gate [OF conjI [OF req conjI [OF closed conjI [OF auth conjI [OF r1 r2]]]]]
  note n = none [OF closed]
  note s = some [OF first, simplified snd_conv]
  note p2 = pass [OF conjI [OF req conjI [OF auth2 conjI [OF r1 conjI [OF r2 conjI [OF first o2]]]]],
      simplified snd_conv]
  note p3 = pass [OF conjI [OF req3 conjI [OF auth3 conjI [OF r3 conjI [OF r4 conjI [OF first o3]]]]],
      simplified snd_conv]
  from auth req g n s p2 p3 show ?thesis by (intro conjI)
qed

text \<open>
  C7. \<open>logAudit\<close> never raises: whatever the arguments and whatever the store answers,
  it returns normally. When the write is rejected the store is as before and the error
  is written to \<open>console.error\<close>; in every case the collections other than \<open>auditLogs\<close>
  are as before (nothing the governed operation wrote is undone); an accepted write
  appends the entry to \<open>auditLogs\<close> and prints nothing.
\<close>

theorem logAudit_never_raises:
  "(\<forall>outcome w a ctx rt rid details. fst (logAudit outcome w a ctx rt rid details) = Inr ())
   \<and> (\<forall>e w a ctx rt rid details.
        store (snd (logAudit (Inl e) w a ctx rt rid details)) = store w
        \<and> (\<exists>e'. console (snd (logAudit (Inl e) w a ctx rt rid details))
                   = console w @ [(js ''Audit log failed:'', e')]))
   \<and> (\<forall>outcome w a ctx rt rid details coll.
        coll \<noteq> js ''auditLogs''
          \<longrightarrow> store (snd (logAudit outcome w a ctx rt rid details)) coll = store w coll)
   \<and> (\<forall>ident w a ctx rt rid details d.
        audit_entry a ctx rt rid details = Inr d
          \<longrightarrow> store (snd (logAudit (Inr ident) w a ctx rt rid details)) (js ''auditLogs'')
                = store w (js ''auditLogs'') @ [(ident, d)]
              \<and> console (snd (logAudit (Inr ident) w a ctx rt rid details)) = console w)"
proof -
  have a: "fst (logAudit outcome w a ctx rt rid details) = Inr ()"
    for outcome w a ctx rt rid details
    by (simp add: logAudit_def collection_add_def split: sum.splits prod.splits)
  have b: "store (snd (logAudit (Inl e) w a ctx rt rid details)) = store w
        \<and> (\<exists>e'. console (snd (logAudit (Inl e) w a ctx rt rid details))
                   = console w @ [(js ''Audit log failed:'', e')])"
    for e w a ctx rt rid details
    by (cases "audit_entry a ctx rt rid details") (simp_all add: logAudit_def collection_add_def)
  have c: "store (snd (logAudit outcome w a ctx rt rid details)) coll = store w coll"
    if "coll \<noteq> js ''auditLogs''" for outcome w a ctx rt rid details coll
    using that
    by (cases "audit_entry a ctx rt rid details"; cases outcome)
      (simp_all add: logAudit_def collection_add_def)
  have d: "store (snd (logAudit (Inr ident) w a ctx rt rid details)) (js ''auditLogs'')
                = store w (js ''auditLogs'') @ [(ident, d)]
              \<and> console (snd (logAudit (Inr ident) w a ctx rt rid details)) = console w"
    if "audit_entry a ctx rt rid details = Inr d" for ident w a ctx rt rid details d
    using that by (simp add: logAudit_def collection_add_def)
  show ?thesis
    by (intro conjI allI impI;
        (rule a | rule b [THEN conjunct1] | rule b [THEN conjunct2] | erule c
          | erule d [THEN conjunct1] | erule d [THEN conjunct2]))
qed

theorem logAudit_never_raises_witness:
  "js ''modules'' \<noteq> js ''auditLogs''
   \<and> logAudit (Inl (Error (js ''UNAVAILABLE''))) world_open (js ''CREATE_MODULE'')
        (Some (context_of (js ''owner1'') (js ''programOwner''))) (js ''modules'') (js ''m1'') Undefined
       = (Inr (), world_open\<lparr>
            ops := [Add (js ''auditLogs'')
              [(js ''action'', JString (js ''CREATE_MODULE'')),
               (js ''userId'', JString (js ''owner1'')),
               (js ''userEmail'', JString (js ''someone@wbs.de'')),
               (js ''userRole'', JString (js ''programOwner'')),
               (js ''resourceType'', JString (js ''modules'')),
               (js ''resourceId'', JString (js ''m1'')),
               (js ''details'', JObject []),
               (js ''timestamp'', ServerTimestamp),
               (js ''ipAddress'', Null)]],
            console := [(js ''Audit log failed:'', Error (js ''UNAVAILABLE''))]\<rparr>)
   \<and> store (snd (logAudit (Inl (Error (js ''UNAVAILABLE''))) world_open (js ''CREATE_MODULE'')
        (Some (context_of (js ''owner1'') (js ''programOwner''))) (js ''modules'') (js ''m1'') Undefined))
        (js ''modules'') = store world_open (js ''modules'')
   \<and> fst (logAudit (Inr (js ''a1'')) world_open (js ''CREATE_MODULE'') None (js ''modules'') (js ''m1'') Null)
       = Inr ()"
proof -
  note T = logAudit_never_raises
  note never = T [THEN conjunct1, rule_format]
  note kept = T [THEN conjunct2, THEN conjunct2, THEN conjunct1, rule_format]
  have ne: "js ''modules'' \<noteq> js ''auditLogs''" by (simp add: js_def)
  have run: "logAudit (Inl (Error (js ''UNAVAILABLE''))) world_open (js ''CREATE_MODULE'')
        (Some (context_of (js ''owner1'') (js ''programOwner''))) (js ''modules'') (js ''m1'') Undefined
       = (Inr (), world_open\<lparr>
            ops := [Add (js ''auditLogs'')
              [(js ''action'', JString (js ''CREATE_MODULE'')),
               (js ''userId'', JString (js ''owner1'')),
               (js ''userEmail'', JString (js ''someone@wbs.de'')),
               (js ''userRole'', JString (js ''programOwner'')),
               (js ''resourceType'', JString (js ''modules'')),
               (js ''resourceId'', JString (js ''m1'')),
               (js ''details'', JObject []),
               (js ''timestamp'', ServerTimestamp),
               (js ''ipAddress'', Null)]],
            console := [(js ''Audit log failed:'', Error (js ''UNAVAILABLE''))]\<rparr>)"
    by (simp add: logAudit_def collection_add_def audit_entry_def context_of_def world_open_def
        get_prop_def object_prototype_names_def js_def)
  note k = kept [OF ne, of "Inl (Error (js ''UNAVAILABLE''))" world_open "js ''CREATE_MODULE''"
      "Some (context_of (js ''owner1'') (js ''programOwner''))" "js ''modules''" "js ''m1''" Undefined]
  note n = never [of "Inr (js ''a1'')" world_open "js ''CREATE_MODULE''" None "js ''modules''"
      "js ''m1''" Null]
  from ne run k n show ?thesis by (intro conjI)
qed

section \<open>The sanitizer\<close>



lemma canon_lt: "canon ic x = 0x3C \<longleftrightarrow> x = 0x3C"
  unfolding canon_def by (auto; unat_arith)

lemma canon_of_lt: "canon ic 0x3C = 0x3C"
  by (simp add: canon_def)

lemma in_control_class: "in_class [(0x00, 0x08), (0x0B, 0x0B), (0x0C, 0x0C), (0x0E, 0x1F), (0x7F, 0x7F)] c
    \<longleftrightarrow> is_control c"
  unfolding in_class_def is_control_def by (auto; unat_arith)

lemma replace_control:
  "replace_all False control_regex s ys = filter (\<lambda>c. \<not> is_control c) ys"
  by (induction ys) (simp_all add: control_regex_def matches.simps in_control_class)

lemma matches_lit:
  "matches True s (lit w) ys = (if ci_prefix w ys then [drop (length w) ys] else [])"
proof (induction w arbitrary: ys)
  case Nil
  then show ?case by (simp add: matches.simps)
next
  case (Cons c w)
  then show ?case by (cases ys) (simp_all add: matches.simps)
qed

lemma matches_not_lt_star: "matches True s not_lt_star ys = skips ys"
proof (induction ys)
  case Nil
  then show ?case by (simp add: not_lt_star_def matches.simps)
next
  case (Cons y ys)
  have "matches True s (Star (NotChr 0x3C)) (y # ys) =
      (if y \<noteq> 0x3C then matches True s (Star (NotChr 0x3C)) ys @ [y # ys] else [y # ys])"
    by (subst matches.simps) (simp add: matches.simps(2) canon_lt canon_of_lt)
  with Cons show ?case by (simp add: not_lt_star_def)
qed

lemma skips_length: "zs \<in> set (skips ys) \<Longrightarrow> length zs \<le> length ys"
  by (induction ys) (auto split: if_splits)

lemma ci_prefix_close_lt: "ci_prefix (js ''</script>'') (y # ys) \<Longrightarrow> y = 0x3C"
  by (simp add: js_def canon_of_lt canon_lt)

lemma matches_inner_group:
  "matches True s inner_group ys =
     (if ci_prefix (js ''</script>'') ys then []
      else (case ys of [] \<Rightarrow> [] | y # ys' \<Rightarrow> if y = 0x3C then skips ys' else []))"
  by (simp add: inner_group_def matches.simps(6,8) matches.simps(1) close_tag_def matches_lit
      matches_not_lt_star canon_lt canon_of_lt split: list.splits)


lemma matches_close_tag:
  "matches True s close_tag ys = (if ci_prefix (js ''</script>'') ys then [drop 9 ys] else [])"
proof -
  have "length (js ''</script>'') = 9" by (simp add: js_def)
  then show ?thesis by (simp add: close_tag_def matches_lit)
qed

lemma tail_unfold:
  "set (matches True s (Seq (Star inner_group) close_tag) ys) =
     set (matches True s close_tag ys)
     \<union> (\<Union>zs\<in>{zs \<in> set (matches True s inner_group ys). length zs < length ys}.
          set (matches True s (Seq (Star inner_group) close_tag) zs))"
proof -
  have star: "matches True s (Star inner_group) ys =
      concat (map (\<lambda>zs. matches True s (Star inner_group) zs)
        (filter (\<lambda>zs. length zs < length ys) (matches True s inner_group ys))) @ [ys]"
    by (rule matches.simps)
  show ?thesis
    unfolding matches.simps(6) by (subst star) auto
qed

lemma after_close_dropWhile:
  "after_close (dropWhile (\<lambda>y. y \<noteq> 0x3C) ys) = after_close ys"
proof (induction ys)
  case Nil
  then show ?case by simp
next
  case (Cons y ys)
  show ?case
  proof (cases "y = 0x3C")
    case True
    then show ?thesis by simp
  next
    case False
    then have "\<not> ci_prefix (js ''</script>'') (y # ys)"
      using ci_prefix_close_lt by blast
    with False Cons show ?thesis by simp
  qed
qed

lemma dropWhile_lt_shape:
  "dropWhile (\<lambda>y. y \<noteq> 0x3C) ys = [] \<or> (\<exists>t. dropWhile (\<lambda>y. y \<noteq> (0x3C::jschar)) ys = 0x3C # t)"
  by (induction ys) auto

lemma skips_union:
  "(\<Union>zs\<in>set (skips ys). if take 1 zs = [0x3C] then H zs else {}) =
     (if take 1 (dropWhile (\<lambda>y. y \<noteq> 0x3C) ys) = [0x3C]
      then H (dropWhile (\<lambda>y. y \<noteq> 0x3C) ys) else {})"
  by (induction ys) auto

lemma after_close_needs_lt:
  assumes "take 1 ys \<noteq> [0x3C]"
  shows "\<not> ci_prefix (js ''</script>'') ys"
proof (cases ys)
  case Nil
  then show ?thesis by (simp add: js_def)
next
  case (Cons y ys')
  with assms have "y \<noteq> 0x3C" by simp
  with Cons show ?thesis using ci_prefix_close_lt by blast
qed

lemma skips_close:
  "(if take 1 (dropWhile (\<lambda>y. y \<noteq> 0x3C) ys) = [0x3C]
    then set_option (after_close (dropWhile (\<lambda>y. y \<noteq> 0x3C) ys)) else {})
   = set_option (after_close ys)"
proof (cases "dropWhile (\<lambda>y. y \<noteq> (0x3C::jschar)) ys")
  case Nil
  with after_close_dropWhile [of ys] have "after_close ys = None" by simp
  then show ?thesis unfolding Nil by simp
next
  case (Cons d t)
  with dropWhile_lt_shape [of ys] have d: "d = 0x3C" by simp
  from after_close_dropWhile [of ys] have "after_close (d # t) = after_close ys"
    unfolding Cons .
  then show ?thesis unfolding Cons d by simp
qed

lemma tail_result:
  "set (matches True s (Seq (Star inner_group) close_tag) ys) =
     (if take 1 ys = [0x3C] then set_option (after_close ys) else {})"
proof (induction ys rule: measure_induct_rule [of length])
  case (less ys)
  note unfold = tail_unfold [of s ys]
  show ?case
  proof (cases "take 1 ys = [0x3C]")
    case False
    then have "\<not> ci_prefix (js ''</script>'') ys" by (rule after_close_needs_lt)
    moreover from False have "matches True s inner_group ys = []"
      by (cases ys) (auto simp: matches_inner_group)
    ultimately show ?thesis using False unfold by (simp add: matches_close_tag)
  next
    case True
    then obtain ys' where ys: "ys = 0x3C # ys'" by (cases ys) auto
    show ?thesis
    proof (cases "ci_prefix (js ''</script>'') ys")
      case c: True
      then have "matches True s inner_group ys = []" by (simp add: matches_inner_group)
      with c True unfold ys show ?thesis by (simp add: matches_close_tag)
    next
      case c: False
      then have g: "matches True s inner_group ys = skips ys'"
        using ys by (simp add: matches_inner_group)
      have "length zs < length ys" if "zs \<in> set (skips ys')" for zs
        using skips_length [OF that] ys by simp
      then have short: "{zs \<in> set (skips ys'). length zs < length ys} = set (skips ys')"
        by auto
      have "set (matches True s (Seq (Star inner_group) close_tag) ys) =
          (\<Union>zs\<in>set (skips ys'). set (matches True s (Seq (Star inner_group) close_tag) zs))"
        using unfold c by (simp add: matches_close_tag g short)
      also have "\<dots> = (\<Union>zs\<in>set (skips ys').
          if take 1 zs = [0x3C] then set_option (after_close zs) else {})"
      proof (rule SUP_cong [OF refl])
        fix zs assume "zs \<in> set (skips ys')"
        then have "length zs < length ys" using skips_length [of zs ys'] ys by simp
        then show "set (matches True s (Seq (Star inner_group) close_tag) zs) =
            (if take 1 zs = [0x3C] then set_option (after_close zs) else {})"
          by (rule less.IH)
      qed
      also have "\<dots> = (if take 1 (dropWhile (\<lambda>y. y \<noteq> 0x3C) ys') = [0x3C]
          then set_option (after_close (dropWhile (\<lambda>y. y \<noteq> 0x3C) ys')) else {})"
        by (rule skips_union)
      also have "\<dots> = set_option (after_close ys')"
        by (rule skips_close)
      also have "\<dots> = set_option (after_close ys)" using c ys by simp
      finally show ?thesis using True by simp
    qed
  qed
qed

lemma middle_result:
  "set (matches True s (Seq not_lt_star (Seq (Star inner_group) close_tag)) ys) =
     set_option (after_close ys)"
proof -
  have "set (matches True s (Seq not_lt_star (Seq (Star inner_group) close_tag)) ys) =
      (\<Union>zs\<in>set (skips ys). if take 1 zs = [0x3C] then set_option (after_close zs) else {})"
    by (simp add: matches.simps(6) [of _ _ not_lt_star] matches_not_lt_star tail_result)
  also have "\<dots> = (if take 1 (dropWhile (\<lambda>y. y \<noteq> 0x3C) ys) = [0x3C]
      then set_option (after_close (dropWhile (\<lambda>y. y \<noteq> 0x3C) ys)) else {})"
    by (rule skips_union)
  also have "\<dots> = set_option (after_close ys)"
    by (rule skips_close)
  finally show ?thesis .
qed


lemma ci_prefix_nth:
  "ci_prefix w xs \<Longrightarrow> length w \<le> length xs \<and> (\<forall>i<length w. canon True (xs ! i) = canon True (w ! i))"
proof (induction w arbitrary: xs)
  case Nil
  then show ?case by simp
next
  case (Cons c w)
  then obtain x xs' where xs: "xs = x # xs'" by (cases xs) auto
  with Cons.prems have h: "canon True x = canon True c" and p: "ci_prefix w xs'" by simp_all
  from Cons.IH [OF p] h xs show ?case by (auto simp: nth_Cons')
qed

lemma canon_t_word: "canon True x = canon True 0x74 \<Longrightarrow> is_word x"
  unfolding canon_def is_word_def by (auto split: if_splits; unat_arith)

lemma open_tag_shape:
  assumes "ci_prefix (js ''<script'') xs"
  shows "7 \<le> length xs \<and> is_word (xs ! 6)"
proof -
  have l: "length (js ''<script'') = 7" and n: "js ''<script'' ! 6 = 0x74"
    by (simp_all add: js_def)
  from ci_prefix_nth [OF assms] l have "7 \<le> length xs"
    and "canon True (xs ! 6) = canon True (js ''<script'' ! 6)"
    by auto
  then show ?thesis using n canon_t_word by simp
qed

lemma boundary_after_open:
  assumes "s = pre @ xs" and "ci_prefix (js ''<script'') xs"
  shows "matches True s WordBoundary (drop 7 xs) =
     (if (case drop 7 xs of [] \<Rightarrow> True | c # cs \<Rightarrow> \<not> is_word c) then [drop 7 xs] else [])"
proof -
  from open_tag_shape [OF assms(2)] have len: "7 \<le> length xs" and w: "is_word (xs ! 6)"
    by simp_all
  from len assms(1) have idx: "length s - length (drop 7 xs) - 1 = length pre + 6"
    by simp
  from len assms(1) have lt: "length (drop 7 xs) < length s" by simp
  have "s ! (length pre + 6) = xs ! 6" using assms(1) by (simp add: nth_append)
  with w idx lt have a: "length (drop 7 xs) < length s
      \<and> is_word (s ! (length s - length (drop 7 xs) - 1))"
    by simp
  show ?thesis
    using a by (cases "drop 7 xs") (simp_all add: matches.simps(4) Let_def)
qed

lemma script_match:
  assumes "s = pre @ xs"
  shows "set (matches True s script_regex xs) =
     (if opens_script xs then set_option (after_close (drop 7 xs)) else {})"
proof (cases "ci_prefix (js ''<script'') xs")
  case False
  then show ?thesis
    by (simp add: script_regex_def matches.simps(6) [of _ _ "lit _"] matches_lit opens_script_def)
next
  case True
  have l: "length (js ''<script'') = 7" by (simp add: js_def)
  let ?rest = "Seq not_lt_star (Seq (Star inner_group) close_tag)"
  have "set (matches True s script_regex xs) =
      (\<Union>zs\<in>set (matches True s WordBoundary (drop 7 xs)). set (matches True s ?rest zs))"
    using True l
    by (simp add: script_regex_def matches.simps(6) [of _ _ "lit _"]
        matches.simps(6) [of _ _ WordBoundary] matches_lit)
  also have "\<dots> = (if (case drop 7 xs of [] \<Rightarrow> True | c # cs \<Rightarrow> \<not> is_word c)
      then set_option (after_close (drop 7 xs)) else {})"
    by (simp add: boundary_after_open [OF assms True] middle_result)
  finally show ?thesis using True by (simp add: opens_script_def)
qed

lemma after_close_suffix:
  "after_close ys = Some rest \<Longrightarrow> \<exists>p. ys = p @ rest"
proof (induction ys)
  case Nil
  then show ?case by simp
next
  case (Cons y ys)
  show ?case
  proof (cases "ci_prefix (js ''</script>'') (y # ys)")
    case True
    with Cons.prems have "rest = drop 9 (y # ys)" by simp
    then have "y # ys = take 9 (y # ys) @ rest" by simp
    then show ?thesis by blast
  next
    case False
    with Cons obtain p where "ys = p @ rest" by auto
    then have "y # ys = (y # p) @ rest" by simp
    then show ?thesis by blast
  qed
qed

lemma replace_script:
  "s = pre @ xs \<Longrightarrow> replace_all True script_regex s xs = strip_script_tags xs"
proof (induction xs arbitrary: pre rule: measure_induct_rule [of length])
  case (less xs)
  show ?case
  proof (cases xs)
    case Nil
    then show ?thesis by simp
  next
    case (Cons y ys)
    have tail: "replace_all True script_regex s ys = strip_script_tags ys"
      using less.IH [of ys "pre @ [y]"] less.prems Cons by simp
    note m = script_match [OF less.prems]
    show ?thesis
    proof (cases "opens_script xs \<and> after_close (drop 7 xs) \<noteq> None")
      case False
      with m have "matches True s script_regex xs = []" by (auto split: if_splits)
      with False tail Cons show ?thesis by (auto split: option.splits)
    next
      case True
      then obtain rest where r: "after_close (drop 7 xs) = Some rest" by auto
      with True m have "set (matches True s script_regex xs) = {rest}" by simp
      then obtain more where ms: "matches True s script_regex xs = rest # more"
        by (cases "matches True s script_regex xs") auto
      from after_close_suffix [OF r] obtain p where p: "drop 7 xs = p @ rest" by blast
      then have "length rest \<le> length (drop 7 xs)" by simp
      with Cons have short: "length rest < length xs" by simp
      have "xs = take 7 xs @ p @ rest" using p by (metis append_take_drop_id)
      with less.prems have "s = (pre @ take 7 xs @ p) @ rest" by simp
      from less.IH [OF short this]
      have "replace_all True script_regex s rest = strip_script_tags rest" .
      with ms short True r Cons show ?thesis by simp
    qed
  qed
qed

lemma sanitize_refines:
  "sanitizeString (JString str) = spec_sanitize str"
  by (simp add: sanitizeString_def spec_sanitize_def replace_global_def replace_control
      replace_script [of _ "[]"])

text \<open>
  C5. For a string, \<open>sanitizeString\<close> trims the surrounding whitespace, then removes the
  control characters 0x00-0x08, 0x0B-0x0C, 0x0E-0x1F and 0x7F, then removes script-tag
  markup (in any case, from an opening tag through the first closing tag behind it),
  then keeps at most the first 10,000 characters; every input that is not a string gives
  the empty string; \<open><script>alert(1)</script>hello\<close> gives \<open>hello\<close>.
\<close>

theorem sanitizeString_pipeline:
  "(\<forall>str. sanitizeString (JString str)
            = take 10000 (strip_script_tags (filter (\<lambda>c. \<not> is_control c) (trim str))))
   \<and> (\<forall>str. length (sanitizeString (JString str)) \<le> 10000)
   \<and> (\<forall>v. (\<forall>str. v \<noteq> JString str) \<longrightarrow> sanitizeString v = [])
   \<and> sanitizeString (JString (js ''<script>alert(1)</script>hello'')) = js ''hello''"
proof (intro conjI allI impI)
  fix str
  show "sanitizeString (JString str)
      = take 10000 (strip_script_tags (filter (\<lambda>c. \<not> is_control c) (trim str)))"
    by (simp add: sanitize_refines spec_sanitize_def)
  then show "length (sanitizeString (JString str)) \<le> 10000" by simp
next
  fix v
  assume "\<forall>str. v \<noteq> JString str"
  then show "sanitizeString v = []"
    by (cases v) (simp_all add: sanitizeString_def)
next
  have "spec_sanitize (js ''<script>alert(1)</script>hello'') = js ''hello''"
    by (simp add: spec_sanitize_def trim_def is_space_def is_control_def opens_script_def
        canon_def is_word_def js_def)
  then show "sanitizeString (JString (js ''<script>alert(1)</script>hello'')) = js ''hello''"
    by (simp add: sanitize_refines)
qed

theorem sanitizeString_pipeline_witness:
  "(\<forall>str. JNumber (Fin 5) \<noteq> JString str)
   \<and> sanitizeString (JNumber (Fin 5)) = []
   \<and> sanitizeString (JString (js ''  a<SCRIPT src=x>1<2</Script>b ''))
       = take 10000 (strip_script_tags (filter (\<lambda>c. \<not> is_control c)
           (trim (js ''  a<SCRIPT src=x>1<2</Script>b ''))))
   \<and> take 10000 (strip_script_tags (filter (\<lambda>c. \<not> is_control c)
           (trim (js ''  a<SCRIPT src=x>1<2</Script>b '')))) = js ''ab''"
proof -
  note T = sanitizeString_pipeline
  have h: "\<forall>str. JNumber (Fin 5) \<noteq> JString str" by simp
  note n = T [THEN conjunct2, THEN conjunct2, THEN conjunct1, THEN spec, THEN mp, OF h]
  note r = T [THEN conjunct1, THEN spec, of "js ''  a<SCRIPT src=x>1<2</Script>b ''"]
  have e: "take 10000 (strip_script_tags (filter (\<lambda>c. \<not> is_control c)
           (trim (js ''  a<SCRIPT src=x>1<2</Script>b '')))) = js ''ab''"
    by (simp add: trim_def is_space_def is_control_def opens_script_def canon_def is_word_def
        js_def)
  from h n r e show ?thesis by (intro conjI)
qed


section \<open>Module input: the numeric fields\<close>


lemma and_then_eq_Inr:
  "and_then r f = Inr y \<longleftrightarrow> (\<exists>x. r = Inr x \<and> f x = Inr y)"
  by (cases r) (simp_all add: and_then_def)

lemma get_prop_without_other:
  "g \<noteq> f \<Longrightarrow> get_prop (filter (\<lambda>p. fst p \<noteq> f) d) g = get_prop d g"
proof -
  assume "g \<noteq> f"
  then have "map_of (filter (\<lambda>p. fst p \<noteq> f) d) g = map_of d g"
    by (induction d) auto
  then show ?thesis by (simp add: get_prop_def)
qed

lemma get_prop_without_same:
  "f \<notin> set object_prototype_names \<Longrightarrow> get_prop (filter (\<lambda>p. fst p \<noteq> f) d) f = Undefined"
proof -
  have "map_of (filter (\<lambda>p. fst p \<noteq> f) d) f = None"
    by (induction d) auto
  then show "f \<notin> set object_prototype_names \<Longrightarrow> ?thesis" by (simp add: get_prop_def)
qed

lemma unat_of_char: "unat (of_char c :: jschar) = of_char c"
proof -
  have "(of_char c :: nat) mod 256 = of_char c" by (rule of_char_mod_256)
  then have "(of_char c :: nat) < 256"
    by (metis mod_less_divisor zero_less_numeral)
  moreover have "(256 :: nat) < 2 ^ LENGTH(16)" by simp
  ultimately have "(of_char c :: nat) < 2 ^ LENGTH(16)" by (rule less_trans)
  moreover have "(of_char c :: jschar) = of_nat (of_char c)"
    by (simp add: of_nat_of_char)
  ultimately show ?thesis by (simp add: of_nat_inverse)
qed

lemma js_eq_iff: "js a = js b \<longleftrightarrow> a = b"
proof
  assume "js a = js b"
  then have "map unat (js a) = map unat (js b)" by simp
  then have "map (of_char :: char \<Rightarrow> nat) a = map of_char b"
    by (simp add: js_def comp_def unat_of_char)
  then show "a = b" by (simp add: inj_map_eq_map inj_of_char)
qed simp

lemma number_fields_not_inherited:
  "f \<in> set [js ''pricePerUE'', js ''pricePerModule'', js ''ue45'', js ''weeks'']
     \<Longrightarrow> f \<notin> set object_prototype_names"
  by (auto simp: object_prototype_names_def js_def)

lemma falsy_field_absent:
  assumes f: "f \<in> set [js ''pricePerUE'', js ''pricePerModule'', js ''ue45'', js ''weeks'']"
    and falsy: "\<not> truthy (get_prop data f)"
  shows "validateModuleInput conv data = validateModuleInput conv (filter (\<lambda>p. fst p \<noteq> f) data)"
proof -
  let ?d = "filter (\<lambda>p. fst p \<noteq> f) data"
  have same: "get_prop ?d f = Undefined"
    using number_fields_not_inherited [OF f] by (rule get_prop_without_same)
  have other: "g \<noteq> f \<Longrightarrow> get_prop ?d g = get_prop data g" for g
    by (rule get_prop_without_other)
  from f consider "f = js ''pricePerUE''" | "f = js ''pricePerModule''" | "f = js ''ue45''"
    | "f = js ''weeks''"
    by auto
  then show ?thesis
  proof cases
    case 1
    with falsy same have a: "\<not> truthy (get_prop data (js ''pricePerUE''))"
      and b: "get_prop ?d (js ''pricePerUE'') = Undefined" by simp_all
    have o: "g \<noteq> js ''pricePerUE'' \<Longrightarrow> get_prop ?d g = get_prop data g" for g
      using other 1 by simp
    show ?thesis
      unfolding validateModuleInput_def
      by (simp add: a b o js_eq_iff)
  next
    case 2
    with falsy same have a: "\<not> truthy (get_prop data (js ''pricePerModule''))"
      and b: "get_prop ?d (js ''pricePerModule'') = Undefined" by simp_all
    have o: "g \<noteq> js ''pricePerModule'' \<Longrightarrow> get_prop ?d g = get_prop data g" for g
      using other 2 by simp
    show ?thesis
      unfolding validateModuleInput_def
      by (simp add: a b o js_eq_iff)
  next
    case 3
    with falsy same have a: "\<not> truthy (get_prop data (js ''ue45''))"
      and b: "get_prop ?d (js ''ue45'') = Undefined" by simp_all
    have o: "g \<noteq> js ''ue45'' \<Longrightarrow> get_prop ?d g = get_prop data g" for g
      using other 3 by simp
    show ?thesis
      unfolding validateModuleInput_def
      by (simp add: a b o js_eq_iff)
  next
    case 4
    with falsy same have a: "\<not> truthy (get_prop data (js ''weeks''))"
      and b: "get_prop ?d (js ''weeks'') = Undefined" by simp_all
    have o: "g \<noteq> js ''weeks'' \<Longrightarrow> get_prop ?d g = get_prop data g" for g
      using other 4 by simp
    show ?thesis
      unfolding validateModuleInput_def
      by (simp add: a b o js_eq_iff)
  qed
qed

lemma number_field_result:
  assumes "(if truthy v then and_then (validateNumber conv v lo hi name) (\<lambda>n. Inr (Some n))
            else Inr None) = Inr x"
  shows "if truthy v then (\<exists>n. validateNumber conv v lo hi name = Inr n \<and> x = Some n)
         else x = None"
  using assms by (auto simp: and_then_eq_Inr split: if_splits)

lemma validated_number_fields:
  assumes "validateModuleInput conv data = Inr r"
  shows "(if truthy (get_prop data (js ''pricePerUE''))
          then \<exists>n. validateNumber conv (get_prop data (js ''pricePerUE'')) 0 1000000
                      (js ''Price per UE'') = Inr n \<and> pricePerUE r = Some n
          else pricePerUE r = None)"
    and "(if truthy (get_prop data (js ''pricePerModule''))
          then \<exists>n. validateNumber conv (get_prop data (js ''pricePerModule'')) 0 1000000
                      (js ''Price per Module'') = Inr n \<and> pricePerModule r = Some n
          else pricePerModule r = None)"
    and "(if truthy (get_prop data (js ''ue45''))
          then \<exists>n. validateNumber conv (get_prop data (js ''ue45'')) 1 1000
                      (js ''UE in 45 Min'') = Inr n \<and> ue45 r = Some n
          else ue45 r = None)"
    and "(if truthy (get_prop data (js ''weeks''))
          then \<exists>n. validateNumber conv (get_prop data (js ''weeks'')) 1 104
                      (js ''Weeks'') = Inr n \<and> weeks r = Some n
          else weeks r = None)"
proof -
  from assms obtain v1 v2 v3 v4 v5 v6 v7 v8 v9 v10 v11 v12 where
    p6: "(if truthy (get_prop data (js ''pricePerUE''))
          then and_then (validateNumber conv (get_prop data (js ''pricePerUE'')) 0 1000000
                 (js ''Price per UE'')) (\<lambda>n. Inr (Some n))
          else Inr None) = Inr v6"
    and p7: "(if truthy (get_prop data (js ''pricePerModule''))
          then and_then (validateNumber conv (get_prop data (js ''pricePerModule'')) 0 1000000
                 (js ''Price per Module'')) (\<lambda>n. Inr (Some n))
          else Inr None) = Inr v7"
    and p8: "(if truthy (get_prop data (js ''ue45''))
          then and_then (validateNumber conv (get_prop data (js ''ue45'')) 1 1000
                 (js ''UE in 45 Min'')) (\<lambda>n. Inr (Some n))
          else Inr None) = Inr v8"
    and p9: "(if truthy (get_prop data (js ''weeks''))
          then and_then (validateNumber conv (get_prop data (js ''weeks'')) 1 104
                 (js ''Weeks'')) (\<lambda>n. Inr (Some n))
          else Inr None) = Inr v9"
    and r: "r = \<lparr>titleEn = v1, descriptionEn = v2, shortCode = v3, dqsNumber = v4, bkz = v5,
            pricePerUE = v6, pricePerModule = v7, ue45 = v8, weeks = v9, curriculum = v10,
            nrMab = v11, certificate = v12\<rparr>"
    unfolding validateModuleInput_def and_then_eq_Inr by blast
  from number_field_result [OF p6] r
  show "(if truthy (get_prop data (js ''pricePerUE''))
          then \<exists>n. validateNumber conv (get_prop data (js ''pricePerUE'')) 0 1000000
                      (js ''Price per UE'') = Inr n \<and> pricePerUE r = Some n
          else pricePerUE r = None)" by simp
  from number_field_result [OF p7] r
  show "(if truthy (get_prop data (js ''pricePerModule''))
          then \<exists>n. validateNumber conv (get_prop data (js ''pricePerModule'')) 0 1000000
                      (js ''Price per Module'') = Inr n \<and> pricePerModule r = Some n
          else pricePerModule r = None)" by simp
  from number_field_result [OF p8] r
  show "(if truthy (get_prop data (js ''ue45''))
          then \<exists>n. validateNumber conv (get_prop data (js ''ue45'')) 1 1000
                      (js ''UE in 45 Min'') = Inr n \<and> ue45 r = Some n
          else ue45 r = None)" by simp
  from number_field_result [OF p9] r
  show "(if truthy (get_prop data (js ''weeks''))
          then \<exists>n. validateNumber conv (get_prop data (js ''weeks'')) 1 104
                      (js ''Weeks'') = Inr n \<and> weeks r = Some n
          else weeks r = None)" by simp
qed


text \<open>
  C10. In \<open>validateModuleInput\<close> each of \<open>pricePerUE\<close>, \<open>pricePerModule\<close>, \<open>ue45\<close> and
  \<open>weeks\<close> goes to \<open>validateNumber\<close> only when its raw value is truthy. A falsy value
  (the number 0, the empty string, \<open>null\<close>, ...) is treated as absent: the result is
  the one for the payload without that field, and a validated record has \<open>null\<close>
  there; yet \<open>validateNumber\<close> itself accepts 0 in the range from 0 to 1000000.
\<close>

theorem falsy_number_fields_are_null:
  "(\<forall>conv data f.
      f \<in> set [js ''pricePerUE'', js ''pricePerModule'', js ''ue45'', js ''weeks'']
      \<and> \<not> truthy (get_prop data f)
        \<longrightarrow> validateModuleInput conv data
            = validateModuleInput conv (filter (\<lambda>p. fst p \<noteq> f) data))
   \<and> (\<forall>conv data r.
        validateModuleInput conv data = Inr r \<longrightarrow>
          (if truthy (get_prop data (js ''pricePerUE''))
           then \<exists>n. validateNumber conv (get_prop data (js ''pricePerUE'')) 0 1000000
                       (js ''Price per UE'') = Inr n \<and> pricePerUE r = Some n
           else pricePerUE r = None)
          \<and> (if truthy (get_prop data (js ''pricePerModule''))
             then \<exists>n. validateNumber conv (get_prop data (js ''pricePerModule'')) 0 1000000
                         (js ''Price per Module'') = Inr n \<and> pricePerModule r = Some n
             else pricePerModule r = None)
          \<and> (if truthy (get_prop data (js ''ue45''))
             then \<exists>n. validateNumber conv (get_prop data (js ''ue45'')) 1 1000
                         (js ''UE in 45 Min'') = Inr n \<and> ue45 r = Some n
             else ue45 r = None)
          \<and> (if truthy (get_prop data (js ''weeks''))
             then \<exists>n. validateNumber conv (get_prop data (js ''weeks'')) 1 104
                         (js ''Weeks'') = Inr n \<and> weeks r = Some n
             else weeks r = None))
   \<and> (\<forall>conv name. validateNumber conv (JNumber (Fin 0)) 0 1000000 name = Inr (Fin 0))
   \<and> \<not> truthy (JNumber (Fin 0)) \<and> \<not> truthy (JString []) \<and> \<not> truthy Undefined
   \<and> \<not> truthy Null \<and> \<not> truthy (JBool False) \<and> \<not> truthy (JNumber NaN)"
proof -
  have a: "validateModuleInput conv data = validateModuleInput conv (filter (\<lambda>p. fst p \<noteq> f) data)"
    if "f \<in> set [js ''pricePerUE'', js ''pricePerModule'', js ''ue45'', js ''weeks'']
      \<and> \<not> truthy (get_prop data f)" for conv data f
    using that by (intro falsy_field_absent) simp_all
  have c: "validateNumber conv (JNumber (Fin 0)) 0 1000000 name = Inr (Fin 0)" for conv name
    by (simp add: validateNumber_def to_number_def and_then_def)
  show ?thesis
    by (intro conjI allI impI; (erule a | erule validated_number_fields | rule c | simp))
qed

theorem falsy_number_fields_are_null_witness:
  "get_prop module_ex (js ''pricePerUE'') = JNumber (Fin 0)
   \<and> get_prop module_ex (js ''pricePerModule'') = JString []
   \<and> validateModuleInput conv_ex module_ex
       = Inr \<lparr>titleEn = js ''Intro to JS'', descriptionEn = js ''Variables and functions'',
              shortCode = None, dqsNumber = None, bkz = None, pricePerUE = None,
              pricePerModule = None, ue45 = None, weeks = Some (Fin 4), curriculum = None,
              nrMab = None, certificate = None\<rparr>
   \<and> validateModuleInput conv_ex (filter (\<lambda>p. fst p \<noteq> js ''pricePerUE'') module_ex)
       = validateModuleInput conv_ex module_ex
   \<and> pricePerUE \<lparr>titleEn = js ''Intro to JS'', descriptionEn = js ''Variables and functions'',
              shortCode = None, dqsNumber = None, bkz = None, pricePerUE = None,
              pricePerModule = None, ue45 = None, weeks = Some (Fin 4), curriculum = None,
              nrMab = None, certificate = None\<rparr> = None"
proof -
  note T = falsy_number_fields_are_null
  note absent = T [THEN conjunct1, rule_format]
  note fields = T [THEN conjunct2, THEN conjunct1, rule_format]
  let ?r = "\<lparr>titleEn = js ''Intro to JS'', descriptionEn = js ''Variables and functions'',
              shortCode = None, dqsNumber = None, bkz = None, pricePerUE = None,
              pricePerModule = None, ue45 = None, weeks = Some (Fin 4), curriculum = None,
              nrMab = None, certificate = None\<rparr>"
  have p1: "get_prop module_ex (js ''pricePerUE'') = JNumber (Fin 0)"
    and p2: "get_prop module_ex (js ''pricePerModule'') = JString []"
    by (simp_all add: module_ex_def get_prop_def js_eq_iff)
  have s1: "sanitizeString (JString (js ''Intro to JS'')) = js ''Intro to JS''"
    and s2: "sanitizeString (JString (js ''Variables and functions'')) = js ''Variables and functions''"
    by (simp_all add: sanitize_refines spec_sanitize_def trim_def is_space_def is_control_def
        opens_script_def canon_def js_def)
  have l: "length (js ''Intro to JS'') = 11" "length (js ''Variables and functions'') = 23"
    "js ''Intro to JS'' \<noteq> []" "js ''Variables and functions'' \<noteq> []"
    by (simp_all add: js_def)
  have run: "validateModuleInput conv_ex module_ex = Inr ?r"
    by (simp add: validateModuleInput_def module_ex_def get_prop_def js_eq_iff
        object_prototype_names_def validateRequired_def validateOptional_def validateLength_def
        validateNumber_def to_number_def and_then_def s1 s2 l)
  have f: "js ''pricePerUE'' \<in> set [js ''pricePerUE'', js ''pricePerModule'', js ''ue45'', js ''weeks'']
      \<and> \<not> truthy (get_prop module_ex (js ''pricePerUE''))"
    by (simp add: p1)
  note e = absent [OF f, of conv_ex, symmetric]
  from fields [OF run, THEN conjunct1] p1 have n: "pricePerUE ?r = None" by simp
  from p1 p2 run e n show ?thesis by (intro conjI)
qed

end
